theory Spec2Isabelle
  imports Complex_Main
begin

section \<open>The camera-capture widget (src/components/UploadImage.tsx)\<close>

text \<open>
  The component \<^verbatim>\<open>GestureRecognition\<close> is embedded as a record of everything its
  functions read or write, and each function of the source as a function on that record.
  An \<^verbatim>\<open>await\<close> or a callback splits a source function into the piece that runs before
  it and the piece that runs when the browser delivers the result; the result itself
  (a stream, a blob, a response, the parsed body, or the thrown error) is an argument of
  the second piece. Calls into the browser that leave the component (drawing, encoding,
  fetching, parsing, console output) are appended to logs, in the order the code makes
  them.
\<close>

subsection \<open>Values of the JavaScript runtime\<close>

datatype mode = Hand | Body

datatype js_error = TypeError string | SyntaxError string | DOMException string

datatype 'a outcome = Resolved 'a | Rejected js_error

text \<open>
  The value \<^verbatim>\<open>response.json()\<close> resolves to has type \<^verbatim>\<open>any\<close> in the source, so the
  embedding keeps every shape JSON has, and \<^verbatim>\<open>undefined\<close> for a property that is absent.
  A parsed number is finite, so a rational stands for it; only whether it is zero matters
  to the code.
\<close>

datatype jsvalue =
    JUndefined
  | JNull
  | JBool bool
  | JNum rat
  | JStr string
  | JArr "jsvalue list"
  | JObj "(string \<times> jsvalue) list"

text \<open>JavaScript's ToBoolean, which \<^verbatim>\<open>if (x)\<close> and \<^verbatim>\<open>x || y\<close> apply.\<close>

fun truthy :: "jsvalue \<Rightarrow> bool" where
  "truthy JUndefined = False"
| "truthy JNull = False"
| "truthy (JBool b) = b"
| "truthy (JNum n) = (n \<noteq> 0)"
| "truthy (JStr s) = (s \<noteq> [])"
| "truthy (JArr xs) = True"
| "truthy (JObj ps) = True"

text \<open>
  The property read \<^verbatim>\<open>data.k\<close>, for the two keys the code reads: it throws a TypeError on
  \<^verbatim>\<open>null\<close> and \<^verbatim>\<open>undefined\<close>, looks the key up in an object, and is \<^verbatim>\<open>undefined\<close>
  on every other value (neither key is a property of a string, a number, a boolean or an
  array).
\<close>

fun getProp :: "jsvalue \<Rightarrow> string \<Rightarrow> js_error + jsvalue" where
  "getProp JUndefined k = Inl (TypeError ''Cannot read properties of undefined'')"
| "getProp JNull k = Inl (TypeError ''Cannot read properties of null'')"
| "getProp (JObj ps) k = Inr (case map_of ps k of None \<Rightarrow> JUndefined | Some v \<Rightarrow> v)"
| "getProp (JBool b) k = Inr JUndefined"
| "getProp (JNum n) k = Inr JUndefined"
| "getProp (JStr s) k = Inr JUndefined"
| "getProp (JArr xs) k = Inr JUndefined"

subsection \<open>Browser objects the component holds\<close>

text \<open>A MediaStream is the list of its tracks; a track is known by its number.\<close>

datatype stream = MediaStream "nat list"

fun getTracks :: "stream \<Rightarrow> nat list" where
  "getTracks (MediaStream ts) = ts"

record video =
  srcObject :: "stream option"

text \<open>
  The canvas element: the \<^verbatim>\<open>width\<close> and \<^verbatim>\<open>height\<close> attributes, and whether
  \<^verbatim>\<open>getContext("2d")\<close> returns a context (it returns null otherwise).
\<close>

record canvas =
  width :: nat
  height :: nat
  context2d :: bool

record blob =
  blobType :: string
  blobBytes :: "nat list"

text \<open>A FormData: the entries appended, each a field name, a blob and a file name.\<close>

type_synonym form_data = "(string \<times> blob \<times> string) list"

text \<open>
  A call \<^verbatim>\<open>fetch(url, init)\<close>: the URL and the members of the init object; a member the
  code does not write is None.
\<close>

record request =
  reqUrl :: string
  reqMethod :: "string option"
  reqHeaders :: "(string \<times> string) list option"
  reqBody :: "form_data option"
  reqCredentials :: "string option"

datatype response = Response nat

datatype console_entry =
    ConsoleLog string
  | ConsoleWarn string
  | ConsoleError string js_error

text \<open>Calls that leave the component, as logged in call order.\<close>

datatype effect =
    GetUserMedia
  | DrawImage video nat nat nat nat
  | CanvasToBlob string
  | FetchCall request
  | ResponseJson response

text \<open>
  What the component is waiting for: a promise that has not settled or a callback that
  has not been called, with what its continuation captured.
\<close>

datatype awaited =
    AwaitMedia
  | AwaitBlob mode
  | AwaitFetch request
  | AwaitJson response

text \<open>
  A timer of the browser: the repeating one of \<^verbatim>\<open>setInterval(captureAndSendFrame, 1000)\<close>,
  with its period and the \<^verbatim>\<open>mode\<close> of the render whose \<^verbatim>\<open>captureAndSendFrame\<close> it
  holds, or the one-shot \<^verbatim>\<open>setTimeout\<close> of \<^verbatim>\<open>startCamera\<close>, with its delay and the
  stream its callback holds.
\<close>

datatype timer =
    Interval nat mode
  | Timeout nat stream

record widget =
  prediction :: jsvalue
  isCameraOn :: bool
  mode :: mode
  videoRef :: "video option"
  canvasRef :: "canvas option"
  mounted :: bool
  interval :: "nat option"
  timers :: "(nat \<times> timer) list"
  nextTimer :: nat
  pending :: "awaited list"
  effects :: "effect list"
  console :: "console_entry list"
  ended :: "nat set"

subsection \<open>State setters and timers\<close>

definition setPrediction :: "jsvalue \<Rightarrow> widget \<Rightarrow> widget" where
  "setPrediction v s = s\<lparr>prediction := v\<rparr>"

definition setIsCameraOn :: "bool \<Rightarrow> widget \<Rightarrow> widget" where
  "setIsCameraOn b s = s\<lparr>isCameraOn := b\<rparr>"

definition setMode :: "mode \<Rightarrow> widget \<Rightarrow> widget" where
  "setMode m s = s\<lparr>mode := m\<rparr>"

text \<open>
  \<^verbatim>\<open>setInterval\<close> and \<^verbatim>\<open>setTimeout\<close> register a timer under a fresh number;
  \<^verbatim>\<open>clearInterval\<close> removes the timer of that number, and does nothing for
  \<^verbatim>\<open>undefined\<close>.
\<close>

definition addTimer :: "timer \<Rightarrow> widget \<Rightarrow> widget" where
  "addTimer t s = s\<lparr>timers := timers s @ [(nextTimer s, t)], nextTimer := Suc (nextTimer s)\<rparr>"

definition clearInterval :: "nat option \<Rightarrow> widget \<Rightarrow> widget" where
  "clearInterval i s =
     (case i of
        None \<Rightarrow> s
      | Some n \<Rightarrow> s\<lparr>timers := filter (\<lambda>(k, t). k \<noteq> n) (timers s)\<rparr>)"

definition consoleError :: "string \<Rightarrow> js_error \<Rightarrow> widget \<Rightarrow> widget" where
  "consoleError msg e s = s\<lparr>console := console s @ [ConsoleError msg e]\<rparr>"

subsection \<open>startCamera (lines 14-32)\<close>

text \<open>Up to the \<^verbatim>\<open>await\<close>: the call of \<^verbatim>\<open>getUserMedia({ video: true })\<close>.\<close>

definition startCamera :: "widget \<Rightarrow> widget" where
  "startCamera s = s\<lparr>effects := effects s @ [GetUserMedia], pending := pending s @ [AwaitMedia]\<rparr>"

text \<open>The callback of the \<^verbatim>\<open>setTimeout\<close> (lines 19-26).\<close>

definition attachStream :: "stream \<Rightarrow> widget \<Rightarrow> widget" where
  "attachStream st s =
     (case videoRef s of
        Some v \<Rightarrow>
          s\<lparr>videoRef := Some (v\<lparr>srcObject := Some st\<rparr>),
            console := console s @ [ConsoleLog ''Camera started and video element found.'']\<rparr>
      | None \<Rightarrow>
          s\<lparr>console := console s @ [ConsoleWarn ''videoRef is null when setting srcObject.'']\<rparr>)"

text \<open>After the \<^verbatim>\<open>await\<close>: the rest of the \<^verbatim>\<open>try\<close> block, or the \<^verbatim>\<open>catch\<close> block.\<close>

definition startCameraSettled :: "stream outcome \<Rightarrow> widget \<Rightarrow> widget" where
  "startCameraSettled r s =
     (case r of
        Resolved st \<Rightarrow> setIsCameraOn True (addTimer (Timeout 100 st) s)
      | Rejected e \<Rightarrow> consoleError ''Error accessing webcam:'' e s)"

subsection \<open>closeCamera (lines 34-41)\<close>

definition stopTrack :: "nat \<Rightarrow> widget \<Rightarrow> widget" where
  "stopTrack t s = s\<lparr>ended := insert t (ended s)\<rparr>"

definition closeCamera :: "widget \<Rightarrow> widget" where
  "closeCamera s =
     setIsCameraOn False
       (case videoRef s of
          None \<Rightarrow> s
        | Some v \<Rightarrow>
            (case srcObject v of
               None \<Rightarrow> s
             | Some st \<Rightarrow>
                 (fold stopTrack (getTracks st) s)\<lparr>videoRef := Some (v\<lparr>srcObject := None\<rparr>)\<rparr>))"

subsection \<open>captureAndSendFrame (lines 43-76)\<close>

text \<open>
  The first argument is the \<^verbatim>\<open>mode\<close> of the render that created this
  \<^verbatim>\<open>captureAndSendFrame\<close>: the function reads it from its closure. This piece runs up
  to the call of \<^verbatim>\<open>canvas.toBlob\<close>, whose callback is called later.
\<close>

definition captureAndSendFrame :: "mode \<Rightarrow> widget \<Rightarrow> widget" where
  "captureAndSendFrame m s =
     (case videoRef s of
        None \<Rightarrow> s
      | Some v \<Rightarrow>
          (case canvasRef s of
             None \<Rightarrow> s
           | Some c \<Rightarrow>
               if \<not> context2d c then s
               else s\<lparr>effects := effects s @
                        [DrawImage v 0 0 (width c) (height c), CanvasToBlob ''image/jpeg''],
                      pending := pending s @ [AwaitBlob m]\<rparr>))"

definition endpoint :: "mode \<Rightarrow> string" where
  "endpoint m =
     (if m = Hand then ''http://localhost:8000/predict/hand/''
      else ''http://localhost:8000/predict/body/'')"

text \<open>The callback of \<^verbatim>\<open>toBlob\<close>, up to the \<^verbatim>\<open>await fetch\<close> (lines 52-66).\<close>

definition blobCallback :: "mode \<Rightarrow> blob option \<Rightarrow> widget \<Rightarrow> widget" where
  "blobCallback m b s =
     (case b of
        None \<Rightarrow> s
      | Some bl \<Rightarrow>
          (let formData = [(''file'', bl, ''frame.jpg'')];
               req = \<lparr>reqUrl = endpoint m, reqMethod = Some ''POST'', reqHeaders = None,
                      reqBody = Some formData, reqCredentials = None\<rparr>
           in s\<lparr>effects := effects s @ [FetchCall req], pending := pending s @ [AwaitFetch req]\<rparr>))"

text \<open>
  When the fetch settles: a rejection goes to the \<^verbatim>\<open>catch\<close> block (line 72), a
  response to \<^verbatim>\<open>await response.json()\<close> (line 68).
\<close>

definition fetchSettled :: "response outcome \<Rightarrow> widget \<Rightarrow> widget" where
  "fetchSettled r s =
     (case r of
        Rejected e \<Rightarrow> consoleError ''Error fetching prediction:'' e s
      | Resolved resp \<Rightarrow>
          s\<lparr>effects := effects s @ [ResponseJson resp], pending := pending s @ [AwaitJson resp]\<rparr>)"

text \<open>
  When \<^verbatim>\<open>response.json()\<close> settles: lines 69-70 on the parsed value, or the
  \<^verbatim>\<open>catch\<close> block for a rejection and for an error thrown by a property read.
\<close>

definition jsonSettled :: "jsvalue outcome \<Rightarrow> widget \<Rightarrow> widget" where
  "jsonSettled r s =
     (case r of
        Rejected e \<Rightarrow> consoleError ''Error fetching prediction:'' e s
      | Resolved data \<Rightarrow>
          (case getProp data ''hand_gesture'' of
             Inl e \<Rightarrow> consoleError ''Error fetching prediction:'' e s
           | Inr hg \<Rightarrow>
               (let s1 = (if truthy hg then setPrediction hg s else s)
                in case getProp data ''body_pose'' of
                     Inl e \<Rightarrow> consoleError ''Error fetching prediction:'' e s1
                   | Inr bp \<Rightarrow> if truthy bp then setPrediction bp s1 else s1)))"

subsection \<open>Rendering (lines 86-206)\<close>

text \<open>
  The component has two return statements: the full-screen tree (line 104) when the mode
  is body and the camera is on, and the card otherwise. \<^verbatim>\<open>a || b\<close> is \<^verbatim>\<open>a\<close> when
  \<^verbatim>\<open>a\<close> is truthy and \<^verbatim>\<open>b\<close> otherwise.
\<close>

definition fullScreen :: "widget \<Rightarrow> bool" where
  "fullScreen s = (mode s = Body \<and> isCameraOn s)"

definition js_or :: "jsvalue \<Rightarrow> jsvalue \<Rightarrow> jsvalue" where
  "js_or a b = (if truthy a then a else b)"

definition predictionLabel :: "widget \<Rightarrow> jsvalue" where
  "predictionLabel s = js_or (prediction s) (JStr ''N/A'')"

text \<open>
  The expressions the component returns as children of the spans after "Prediction:", in
  document order: the one of line 117 in the full-screen tree, those of lines 169 and 181
  in the card, each under its own condition.
\<close>

definition predictionSpans :: "widget \<Rightarrow> jsvalue list" where
  "predictionSpans s =
     (if mode s = Body \<and> isCameraOn s then [predictionLabel s]
      else (if mode s = Body \<and> isCameraOn s then [predictionLabel s] else []) @
           (if mode s = Hand \<or> \<not> isCameraOn s then [predictionLabel s] else []))"

text \<open>
  What React puts into the document for an expression child: the text of a string or of a
  number, nothing for a boolean, \<^verbatim>\<open>null\<close> or \<^verbatim>\<open>undefined\<close>, the children in turn for
  an array, and for any other object it throws ("Objects are not valid as a React
  child"), which is None here.
\<close>

fun reactChild :: "jsvalue \<Rightarrow> jsvalue list option"
  and reactChildren :: "jsvalue list \<Rightarrow> jsvalue list option" where
  "reactChild (JStr s) = Some [JStr s]"
| "reactChild (JNum n) = Some [JNum n]"
| "reactChild (JBool b) = Some []"
| "reactChild JNull = Some []"
| "reactChild JUndefined = Some []"
| "reactChild (JArr xs) = reactChildren xs"
| "reactChild (JObj ps) = None"
| "reactChildren [] = Some []"
| "reactChildren (x # xs) =
     (case reactChild x of
        None \<Rightarrow> None
      | Some a \<Rightarrow> (case reactChildren xs of None \<Rightarrow> None | Some b \<Rightarrow> Some (a @ b)))"

text \<open>
  What the document shows after "Prediction:": the text nodes of the spans while the
  component is mounted (None when rendering them throws), and nothing once the component
  is gone.
\<close>

definition render :: "widget \<Rightarrow> jsvalue list option" where
  "render s = (if mounted s then reactChildren (predictionSpans s) else Some [])"

text \<open>
  The camera button: \<^verbatim>\<open>closeCamera\<close> in the full-screen tree (line 130), and
  \<^verbatim>\<open>isCameraOn ? closeCamera : startCamera\<close> in the card (line 197).
\<close>

definition clickCamera :: "widget \<Rightarrow> widget" where
  "clickCamera s =
     (if fullScreen s then closeCamera s
      else if isCameraOn s then closeCamera s else startCamera s)"

subsection \<open>The interval effect (lines 78-84) and the life cycle\<close>

text \<open>
  The body of the effect registers the interval when the camera is on and keeps its
  number in the variable \<^verbatim>\<open>interval\<close>, which the cleanup it returns passes to
  \<^verbatim>\<open>clearInterval\<close>. The field \<open>interval\<close> is that variable of the effect that ran
  last.
\<close>

definition intervalEffect :: "widget \<Rightarrow> widget" where
  "intervalEffect s =
     (if isCameraOn s
      then (addTimer (Interval 1000 (mode s)) s)\<lparr>interval := Some (nextTimer s)\<rparr>
      else s\<lparr>interval := None\<rparr>)"

definition intervalCleanup :: "widget \<Rightarrow> widget" where
  "intervalCleanup s = clearInterval (interval s) s"

text \<open>
  Unmounting runs the cleanups of both effects, in the order of the effects:
  \<^verbatim>\<open>closeCamera()\<close> (line 11), then \<^verbatim>\<open>clearInterval(interval)\<close> (line 83). Whether
  React has already reset the refs to null when the cleanups run depends on its version,
  so it is an argument: from React 17 on the refs are reset first (\<open>True\<close>), and the
  router this repository is built on needs a later React than that.
\<close>

definition unmount :: "bool \<Rightarrow> widget \<Rightarrow> widget" where
  "unmount detached s =
     (let s0 = (if detached then s\<lparr>videoRef := None, canvasRef := None\<rparr> else s);
          s1 = closeCamera s0;
          s2 = intervalCleanup s1
      in s2\<lparr>videoRef := None, canvasRef := None, mounted := False\<rparr>)"

text \<open>
  What React does with the component after a handler has run, given the state before
  (\<open>old\<close>) and after (\<open>new\<close>) the handler. When the handler changed one of the three
  state variables, React renders again. If a child of the new tree cannot be rendered,
  the render throws: the error boundary of the root route takes the place of the
  component, which is unmounted with its refs reset and its cleanups run. Otherwise the
  new tree is committed; the video and the canvas sit at different places of the two
  trees, so a change of tree replaces both elements by new ones (no stream attached, the
  canvas 640 by 480 as its attributes say) and the refs point to those. Then the effect
  with dependencies \<^verbatim>\<open>[isCameraOn, mode]\<close> runs again when one of the two changed: the
  cleanup of its last run first, then its body.
\<close>

definition commit :: "widget \<Rightarrow> widget \<Rightarrow> widget" where
  "commit old new =
     (if (prediction new \<noteq> prediction old \<or> isCameraOn new \<noteq> isCameraOn old \<or>
          mode new \<noteq> mode old) \<and>
         reactChildren (predictionSpans new) = None
      then unmount True new
      else
        (let s1 = (if fullScreen new \<noteq> fullScreen old
                   then new\<lparr>videoRef := Some \<lparr>srcObject = None\<rparr>,
                            canvasRef := Some \<lparr>width = 640, height = 480, context2d = True\<rparr>\<rparr>
                   else new)
         in if isCameraOn new \<noteq> isCameraOn old \<or> mode new \<noteq> mode old
            then intervalEffect (intervalCleanup s1)
            else s1))"

text \<open>
  The first render (lines 4-8 give the initial state, the card is rendered and the refs
  attached) followed by the effects: the one of lines 10-12 only returns its cleanup, the
  interval effect runs its body.
\<close>

definition mount :: widget where
  "mount =
     intervalEffect
       \<lparr>prediction = JStr [], isCameraOn = False, mode = Hand,
        videoRef = Some \<lparr>srcObject = None\<rparr>,
        canvasRef = Some \<lparr>width = 640, height = 480, context2d = True\<rparr>,
        mounted = True, interval = None, timers = [], nextTimer = 0,
        pending = [], effects = [], console = [], ended = {}\<rparr>"

subsection \<open>Events of the browser\<close>

text \<open>
  A timer that fires: the interval calls \<^verbatim>\<open>captureAndSendFrame\<close> and stays registered,
  the timeout is removed and calls its callback.
\<close>

definition fire :: "nat \<Rightarrow> widget \<Rightarrow> widget" where
  "fire n s =
     (case map_of (timers s) n of
        None \<Rightarrow> s
      | Some (Interval p m) \<Rightarrow> captureAndSendFrame m s
      | Some (Timeout d st) \<Rightarrow>
          attachStream st (s\<lparr>timers := filter (\<lambda>(k, t). k \<noteq> n) (timers s)\<rparr>))"

datatype result =
    MediaResult "stream outcome"
  | BlobResult "blob option"
  | FetchResult "response outcome"
  | JsonResult "jsvalue outcome"

text \<open>The continuation of what is awaited, for a result of its kind.\<close>

fun continue :: "awaited \<Rightarrow> result \<Rightarrow> widget \<Rightarrow> widget option" where
  "continue AwaitMedia (MediaResult x) s = Some (startCameraSettled x s)"
| "continue (AwaitBlob m) (BlobResult b) s = Some (blobCallback m b s)"
| "continue (AwaitFetch q) (FetchResult x) s = Some (fetchSettled x s)"
| "continue (AwaitJson p) (JsonResult x) s = Some (jsonSettled x s)"
| "continue t r s = None"

text \<open>
  The browser settles the pending entry at any position of the list, whatever was started
  before or after it; a result that does not fit is no event at all.
\<close>

definition settle :: "nat \<Rightarrow> result \<Rightarrow> widget \<Rightarrow> widget" where
  "settle i r s =
     (if i < length (pending s)
      then (case continue (pending s ! i) r
                   (s\<lparr>pending := take i (pending s) @ drop (Suc i) (pending s)\<rparr>) of
              None \<Rightarrow> s
            | Some s' \<Rightarrow> s')
      else s)"

datatype event =
    ClickCamera
  | ClickMode mode
  | Fire nat
  | Settle nat result
  | Unmount bool

text \<open>
  One turn of the event loop: the handler, then React's render and commit while the
  component is mounted. Clicks need the rendered buttons; timers and results also arrive after the
  component is gone.
\<close>

fun step :: "event \<Rightarrow> widget \<Rightarrow> widget" where
  "step ClickCamera s = (if mounted s then commit s (clickCamera s) else s)"
| "step (ClickMode m) s = (if mounted s then commit s (setMode m s) else s)"
| "step (Fire n) s = (if mounted s then commit s (fire n s) else fire n s)"
| "step (Settle i r) s = (if mounted s then commit s (settle i r s) else settle i r s)"
| "step (Unmount d) s = (if mounted s then unmount d s else s)"

definition run :: "event list \<Rightarrow> widget \<Rightarrow> widget" where
  "run es s = fold step es s"

text \<open>Observations used in the statements.\<close>

fun intervalsOf :: "(nat \<times> timer) list \<Rightarrow> (nat \<times> nat \<times> mode) list" where
  "intervalsOf [] = []"
| "intervalsOf ((k, Interval p m) # ts) = (k, p, m) # intervalsOf ts"
| "intervalsOf ((k, Timeout d st) # ts) = intervalsOf ts"

fun requestsOf :: "effect list \<Rightarrow> request list" where
  "requestsOf [] = []"
| "requestsOf (FetchCall q # es) = q # requestsOf es"
| "requestsOf (e # es) = requestsOf es"

fun isResponseJson :: "effect \<Rightarrow> bool" where
  "isResponseJson (ResponseJson p) = True"
| "isResponseJson e = False"

subsection \<open>Invariants and observations\<close>

text \<open>
  Timer numbers are never reused: the registered ones are distinct and below the next
  number to be given out.
\<close>

definition idsFresh :: "widget \<Rightarrow> bool" where
  "idsFresh s =
     (distinct (map fst (timers s)) \<and> list_all (\<lambda>k. k < nextTimer s) (map fst (timers s)))"

text \<open>
  The interval registered by the effect is the only interval in the table, it exists
  exactly while the component is mounted with the camera on, and the variable
  \<open>interval\<close> holds its number.
\<close>

definition timersOk :: "widget \<Rightarrow> bool" where
  "timersOk s =
     (idsFresh s \<and>
      (if mounted s \<and> isCameraOn s
       then (case interval s of
               None \<Rightarrow> False
             | Some k \<Rightarrow> intervalsOf (timers s) = [(k, 1000, mode s)])
       else intervalsOf (timers s) = []))"

text \<open>What a handler may do to the timers: nothing the interval effect depends on.\<close>

definition keepsIntervals :: "widget \<Rightarrow> widget \<Rightarrow> bool" where
  "keepsIntervals s s' =
     (interval s' = interval s \<and> mounted s' = mounted s \<and>
      intervalsOf (timers s') = intervalsOf (timers s) \<and> (idsFresh s \<longrightarrow> idsFresh s'))"

text \<open>
  The value of \<^verbatim>\<open>data.k\<close> as the two \<^verbatim>\<open>if\<close> statements of lines 69-70 see it:
  \<^verbatim>\<open>undefined\<close> where the read throws, since neither statement then sets anything.
\<close>

definition fieldOf :: "jsvalue \<Rightarrow> string \<Rightarrow> jsvalue" where
  "fieldOf d k = (case getProp d k of Inl e \<Rightarrow> JUndefined | Inr v \<Rightarrow> v)"

text \<open>The values React shows as text: strings and numbers.\<close>

fun isText :: "jsvalue \<Rightarrow> bool" where
  "isText (JStr s) = True"
| "isText (JNum n) = True"
| "isText v = False"

text \<open>The label is the initial empty string or a value that passed a truthiness test.\<close>

definition predictionOk :: "widget \<Rightarrow> bool" where
  "predictionOk s = (prediction s = JStr [] \<or> truthy (prediction s))"

text \<open>
  A request that carries one frame and nothing else: the method is POST, the init object
  has no headers and no credentials member, the body is a form with the single entry
  "file" named "frame.jpg", and the URL is one of the two prediction endpoints.
\<close>

definition frameRequest :: "request \<Rightarrow> bool" where
  "frameRequest q =
     (reqMethod q = Some ''POST'' \<and> reqHeaders q = None \<and> reqCredentials q = None \<and>
      (case reqBody q of
         None \<Rightarrow> False
       | Some entries \<Rightarrow> map (\<lambda>(name, b, filename). (name, filename)) entries =
                          [(''file'', ''frame.jpg'')]) \<and>
      (reqUrl q = endpoint Hand \<or> reqUrl q = endpoint Body))"

section \<open>Verification\<close>

subsection \<open>Evaluation of the definitions\<close>

lemmas eval_defs = setPrediction_def setIsCameraOn_def setMode_def addTimer_def clearInterval_def
  consoleError_def startCamera_def attachStream_def startCameraSettled_def stopTrack_def closeCamera_def
  captureAndSendFrame_def endpoint_def blobCallback_def fetchSettled_def jsonSettled_def
  fullScreen_def js_or_def predictionLabel_def predictionSpans_def clickCamera_def intervalEffect_def
  intervalCleanup_def commit_def mount_def unmount_def fire_def settle_def run_def Let_def

lemma run_snoc: "run (es @ [e]) s = step e (run es s)"
  by (simp add: run_def)

text \<open>
  The states of one session, computed from the first render: the camera button is
  clicked and the stream granted; the timeout attaches the stream; the interval fires and
  the encoded frame is posted; the response arrives.
\<close>

lemma camera_on_state:
  "run [ClickCamera, Settle 0 (MediaResult (Resolved (MediaStream [0, 1])))] mount =
     \<lparr>prediction = JStr [], isCameraOn = True, mode = Hand,
      videoRef = Some \<lparr>srcObject = None\<rparr>,
      canvasRef = Some \<lparr>width = 640, height = 480, context2d = True\<rparr>,
      mounted = True, interval = Some 1,
      timers = [(0, Timeout 100 (MediaStream [0, 1])), (1, Interval 1000 Hand)],
      nextTimer = 2, pending = [], effects = [GetUserMedia], console = [], ended = {}\<rparr>"
  by (simp add: eval_defs)

lemma streaming_state:
  "run [ClickCamera, Settle 0 (MediaResult (Resolved (MediaStream [0, 1]))), Fire 0] mount =
     \<lparr>prediction = JStr [], isCameraOn = True, mode = Hand,
      videoRef = Some \<lparr>srcObject = Some (MediaStream [0, 1])\<rparr>,
      canvasRef = Some \<lparr>width = 640, height = 480, context2d = True\<rparr>,
      mounted = True, interval = Some 1,
      timers = [(1, Interval 1000 Hand)],
      nextTimer = 2, pending = [], effects = [GetUserMedia],
      console = [ConsoleLog ''Camera started and video element found.''], ended = {}\<rparr>"
  by (simp add: eval_defs)

lemma posted_state:
  "run [ClickCamera, Settle 0 (MediaResult (Resolved (MediaStream [0, 1]))), Fire 0, Fire 1,
        Settle 0 (BlobResult (Some \<lparr>blobType = ''image/jpeg'', blobBytes = [255, 216]\<rparr>))] mount =
     \<lparr>prediction = JStr [], isCameraOn = True, mode = Hand,
      videoRef = Some \<lparr>srcObject = Some (MediaStream [0, 1])\<rparr>,
      canvasRef = Some \<lparr>width = 640, height = 480, context2d = True\<rparr>,
      mounted = True, interval = Some 1,
      timers = [(1, Interval 1000 Hand)],
      nextTimer = 2,
      pending = [AwaitFetch \<lparr>reqUrl = ''http://localhost:8000/predict/hand/'',
                   reqMethod = Some ''POST'', reqHeaders = None,
                   reqBody = Some [(''file'', \<lparr>blobType = ''image/jpeg'', blobBytes = [255, 216]\<rparr>,
                                    ''frame.jpg'')],
                   reqCredentials = None\<rparr>],
      effects = [GetUserMedia,
                 DrawImage \<lparr>srcObject = Some (MediaStream [0, 1])\<rparr> 0 0 640 480,
                 CanvasToBlob ''image/jpeg'',
                 FetchCall \<lparr>reqUrl = ''http://localhost:8000/predict/hand/'',
                   reqMethod = Some ''POST'', reqHeaders = None,
                   reqBody = Some [(''file'', \<lparr>blobType = ''image/jpeg'', blobBytes = [255, 216]\<rparr>,
                                    ''frame.jpg'')],
                   reqCredentials = None\<rparr>],
      console = [ConsoleLog ''Camera started and video element found.''], ended = {}\<rparr>"
  by (simp add: eval_defs)

lemma parsing_state:
  "run [ClickCamera, Settle 0 (MediaResult (Resolved (MediaStream [0, 1]))), Fire 0, Fire 1,
        Settle 0 (BlobResult (Some \<lparr>blobType = ''image/jpeg'', blobBytes = [255, 216]\<rparr>)),
        Settle 0 (FetchResult (Resolved (Response 200)))] mount =
     \<lparr>prediction = JStr [], isCameraOn = True, mode = Hand,
      videoRef = Some \<lparr>srcObject = Some (MediaStream [0, 1])\<rparr>,
      canvasRef = Some \<lparr>width = 640, height = 480, context2d = True\<rparr>,
      mounted = True, interval = Some 1,
      timers = [(1, Interval 1000 Hand)],
      nextTimer = 2,
      pending = [AwaitJson (Response 200)],
      effects = [GetUserMedia,
                 DrawImage \<lparr>srcObject = Some (MediaStream [0, 1])\<rparr> 0 0 640 480,
                 CanvasToBlob ''image/jpeg'',
                 FetchCall \<lparr>reqUrl = ''http://localhost:8000/predict/hand/'',
                   reqMethod = Some ''POST'', reqHeaders = None,
                   reqBody = Some [(''file'', \<lparr>blobType = ''image/jpeg'', blobBytes = [255, 216]\<rparr>,
                                    ''frame.jpg'')],
                   reqCredentials = None\<rparr>,
                 ResponseJson (Response 200)],
      console = [ConsoleLog ''Camera started and video element found.''], ended = {}\<rparr>"
  by (simp add: eval_defs)

subsection \<open>Logs and lists\<close>

lemma intervalsOf_append: "intervalsOf (xs @ ys) = intervalsOf xs @ intervalsOf ys"
  by (induction xs rule: intervalsOf.induct) simp_all

lemma intervalsOf_filter:
  "intervalsOf (filter (\<lambda>(k, t). k \<noteq> n) ts) = filter (\<lambda>(k, p, m). k \<noteq> n) (intervalsOf ts)"
  by (induction ts rule: intervalsOf.induct) simp_all

lemma intervalsOf_set:
  "set (intervalsOf ts) = {(k, p, m). (k, Interval p m) \<in> set ts}"
  by (induction ts rule: intervalsOf.induct) auto

lemma requestsOf_append: "requestsOf (xs @ ys) = requestsOf xs @ requestsOf ys"
  by (induction xs rule: requestsOf.induct) simp_all

lemma filter_absent: "n \<notin> fst ` set ts \<Longrightarrow> filter (\<lambda>(k, t). k \<noteq> n) ts = ts"
  by (induction ts) auto

lemma intervalsOf_drop_timeout:
  "distinct (map fst ts) \<Longrightarrow> map_of ts n = Some (Timeout d st) \<Longrightarrow>
   intervalsOf (filter (\<lambda>(k, t). k \<noteq> n) ts) = intervalsOf ts"
proof (induction ts rule: intervalsOf.induct)
  case 1
  then show ?case by simp
next
  case (2 k p m ts)
  then show ?case by (auto split: if_splits)
next
  case (3 k d' st' ts)
  show ?case
  proof (cases "k = n")
    case True
    with 3 have "n \<notin> fst ` set ts" by auto
    then show ?thesis using True by (simp add: filter_absent)
  next
    case False
    with 3 show ?thesis by simp
  qed
qed

lemma interval_lookup:
  assumes "distinct (map fst ts)" "intervalsOf ts = [(k, p, m)]"
  shows "map_of ts k = Some (Interval p m)"
proof -
  have "(k, p, m) \<in> set (intervalsOf ts)" using assms(2) by simp
  then have "(k, Interval p m) \<in> set ts" by (simp add: intervalsOf_set)
  with assms(1) show ?thesis by simp
qed

lemma fold_stopTrack: "fold stopTrack ts s = s\<lparr>ended := ended s \<union> set ts\<rparr>"
  by (induction ts arbitrary: s) (auto simp: stopTrack_def)

subsection \<open>Fields the handlers leave alone\<close>

lemma closeCamera_timers [simp]:
  "timers (closeCamera s) = timers s" "nextTimer (closeCamera s) = nextTimer s"
  "interval (closeCamera s) = interval s" "mounted (closeCamera s) = mounted s"
  by (simp_all add: closeCamera_def setIsCameraOn_def fold_stopTrack split: option.splits)

lemma closeCamera_fields [simp]:
  "prediction (closeCamera s) = prediction s" "mode (closeCamera s) = mode s"
  "isCameraOn (closeCamera s) = False" "effects (closeCamera s) = effects s"
  "pending (closeCamera s) = pending s" "console (closeCamera s) = console s"
  by (simp_all add: closeCamera_def setIsCameraOn_def fold_stopTrack split: option.splits)

lemma startCamera_timers [simp]:
  "timers (startCamera s) = timers s" "nextTimer (startCamera s) = nextTimer s"
  "interval (startCamera s) = interval s" "mounted (startCamera s) = mounted s"
  by (simp_all add: startCamera_def)

lemma startCamera_fields [simp]:
  "prediction (startCamera s) = prediction s" "mode (startCamera s) = mode s"
  "isCameraOn (startCamera s) = isCameraOn s"
  "requestsOf (effects (startCamera s)) = requestsOf (effects s)"
  by (simp_all add: startCamera_def requestsOf_append)

lemma clickCamera_timers [simp]:
  "timers (clickCamera s) = timers s" "nextTimer (clickCamera s) = nextTimer s"
  "interval (clickCamera s) = interval s" "mounted (clickCamera s) = mounted s"
  by (simp_all add: clickCamera_def)

lemma clickCamera_fields [simp]:
  "prediction (clickCamera s) = prediction s" "mode (clickCamera s) = mode s"
  "requestsOf (effects (clickCamera s)) = requestsOf (effects s)"
  by (simp_all add: clickCamera_def)

lemma setMode_timers [simp]:
  "timers (setMode m s) = timers s" "nextTimer (setMode m s) = nextTimer s"
  "interval (setMode m s) = interval s" "mounted (setMode m s) = mounted s"
  by (simp_all add: setMode_def)

lemma setMode_fields [simp]:
  "prediction (setMode m s) = prediction s" "isCameraOn (setMode m s) = isCameraOn s"
  "effects (setMode m s) = effects s"
  by (simp_all add: setMode_def)

lemma captureAndSendFrame_timers [simp]:
  "timers (captureAndSendFrame m s) = timers s"
  "nextTimer (captureAndSendFrame m s) = nextTimer s"
  "interval (captureAndSendFrame m s) = interval s"
  "mounted (captureAndSendFrame m s) = mounted s"
  by (simp_all add: captureAndSendFrame_def split: option.splits)

lemma captureAndSendFrame_fields [simp]:
  "prediction (captureAndSendFrame m s) = prediction s"
  "mode (captureAndSendFrame m s) = mode s"
  "isCameraOn (captureAndSendFrame m s) = isCameraOn s"
  "requestsOf (effects (captureAndSendFrame m s)) = requestsOf (effects s)"
  by (simp_all add: captureAndSendFrame_def requestsOf_append split: option.splits)

lemma attachStream_timers [simp]:
  "timers (attachStream st s) = timers s" "nextTimer (attachStream st s) = nextTimer s"
  "interval (attachStream st s) = interval s" "mounted (attachStream st s) = mounted s"
  by (simp_all add: attachStream_def split: option.splits)

lemma attachStream_fields [simp]:
  "prediction (attachStream st s) = prediction s" "mode (attachStream st s) = mode s"
  "isCameraOn (attachStream st s) = isCameraOn s" "effects (attachStream st s) = effects s"
  by (simp_all add: attachStream_def split: option.splits)

lemma fire_fields [simp]:
  "prediction (fire n s) = prediction s" "mode (fire n s) = mode s"
  "isCameraOn (fire n s) = isCameraOn s"
  "requestsOf (effects (fire n s)) = requestsOf (effects s)"
  by (simp_all add: fire_def split: option.splits timer.splits)

lemma blobCallback_timers [simp]:
  "timers (blobCallback m b s) = timers s" "nextTimer (blobCallback m b s) = nextTimer s"
  "interval (blobCallback m b s) = interval s" "mounted (blobCallback m b s) = mounted s"
  by (simp_all add: blobCallback_def Let_def split: option.splits)

lemma blobCallback_fields [simp]:
  "prediction (blobCallback m b s) = prediction s" "mode (blobCallback m b s) = mode s"
  "isCameraOn (blobCallback m b s) = isCameraOn s"
  by (simp_all add: blobCallback_def Let_def split: option.splits)

lemma blobCallback_requests:
  "requestsOf (effects (blobCallback m (Some b) s)) =
     requestsOf (effects s) @
     [\<lparr>reqUrl = endpoint m, reqMethod = Some ''POST'', reqHeaders = None,
       reqBody = Some [(''file'', b, ''frame.jpg'')], reqCredentials = None\<rparr>]"
  by (simp add: blobCallback_def Let_def requestsOf_append)

lemma fetchSettled_timers [simp]:
  "timers (fetchSettled r s) = timers s" "nextTimer (fetchSettled r s) = nextTimer s"
  "interval (fetchSettled r s) = interval s" "mounted (fetchSettled r s) = mounted s"
  by (simp_all add: fetchSettled_def consoleError_def split: outcome.splits)

lemma fetchSettled_fields [simp]:
  "prediction (fetchSettled r s) = prediction s" "mode (fetchSettled r s) = mode s"
  "isCameraOn (fetchSettled r s) = isCameraOn s"
  "requestsOf (effects (fetchSettled r s)) = requestsOf (effects s)"
  by (simp_all add: fetchSettled_def consoleError_def requestsOf_append split: outcome.splits)

lemma jsonSettled_timers [simp]:
  "timers (jsonSettled r s) = timers s" "nextTimer (jsonSettled r s) = nextTimer s"
  "interval (jsonSettled r s) = interval s" "mounted (jsonSettled r s) = mounted s"
  by (simp_all add: jsonSettled_def consoleError_def setPrediction_def Let_def
      split: outcome.splits sum.splits)

lemma jsonSettled_fields [simp]:
  "mode (jsonSettled r s) = mode s" "isCameraOn (jsonSettled r s) = isCameraOn s"
  "effects (jsonSettled r s) = effects s" "pending (jsonSettled r s) = pending s"
  by (simp_all add: jsonSettled_def consoleError_def setPrediction_def Let_def
      split: outcome.splits sum.splits)

lemma startCameraSettled_fields [simp]:
  "prediction (startCameraSettled r s) = prediction s" "mode (startCameraSettled r s) = mode s"
  "effects (startCameraSettled r s) = effects s"
  by (simp_all add: startCameraSettled_def setIsCameraOn_def addTimer_def consoleError_def
      split: outcome.splits)

lemma unmount_fields [simp]:
  "prediction (unmount d s) = prediction s"
  "isCameraOn (unmount d s) = False"
  "mode (unmount d s) = mode s"
  "mounted (unmount d s) = False"
  "pending (unmount d s) = pending s"
  "effects (unmount d s) = effects s"
  "console (unmount d s) = console s"
  by (simp_all add: unmount_def Let_def intervalCleanup_def clearInterval_def closeCamera_def
      setIsCameraOn_def fold_stopTrack split: option.splits)

lemma commit_fields [simp]:
  "prediction (commit old new) = prediction new"
  "mode (commit old new) = mode new"
  "pending (commit old new) = pending new"
  "effects (commit old new) = effects new"
  "console (commit old new) = console new"
  by (simp_all add: commit_def Let_def intervalEffect_def intervalCleanup_def clearInterval_def
      addTimer_def split: option.splits)

text \<open>A render that throws takes the component down; any other commit keeps the flags.\<close>

lemma commit_flags:
  "isCameraOn (commit old new) \<Longrightarrow> isCameraOn new"
  "mounted (commit old new) \<Longrightarrow> mounted new"
  by (simp_all add: commit_def Let_def intervalEffect_def intervalCleanup_def clearInterval_def
      addTimer_def split: option.splits if_splits)

lemma commit_rendered:
  assumes "reactChildren (predictionSpans new) \<noteq> None"
  shows "isCameraOn (commit old new) = isCameraOn new"
    and "mounted (commit old new) = mounted new"
proof -
  from assms obtain y where y: "reactChildren (predictionSpans new) = Some y" by auto
  show "isCameraOn (commit old new) = isCameraOn new"
    and "mounted (commit old new) = mounted new"
    by (simp_all add: commit_def y Let_def intervalEffect_def intervalCleanup_def
        clearInterval_def addTimer_def split: option.splits)
qed

lemma commit_same:
  "prediction new = prediction old \<Longrightarrow> isCameraOn new = isCameraOn old \<Longrightarrow>
   mode new = mode old \<Longrightarrow> commit old new = new"
  by (simp add: commit_def fullScreen_def)

lemma settle_json:
  assumes "i < length (pending s)" and "pending s ! i = AwaitJson p"
  shows "settle i (JsonResult x) s =
           jsonSettled x (s\<lparr>pending := take i (pending s) @ drop (Suc i) (pending s)\<rparr>)"
  using assms by (simp add: settle_def)

lemma settle_last:
  assumes "pending s = ts @ [t]"
  shows "settle (length ts) r s = (case continue t r (s\<lparr>pending := ts\<rparr>) of None \<Rightarrow> s | Some s' \<Rightarrow> s')"
  using assms by (simp add: settle_def)

subsection \<open>The timer table under every event\<close>

lemma idsFresh_filter:
  "idsFresh s \<Longrightarrow> idsFresh (s\<lparr>timers := filter P (timers s)\<rparr>)"
  by (auto simp: idsFresh_def list_all_iff distinct_map_filter)

lemma idsFresh_addTimer: "idsFresh s \<Longrightarrow> idsFresh (addTimer t s)"
  by (auto simp: idsFresh_def addTimer_def list_all_iff)

lemma keepsIntervals_same:
  "timers s' = timers s \<Longrightarrow> nextTimer s' = nextTimer s \<Longrightarrow> interval s' = interval s \<Longrightarrow>
   mounted s' = mounted s \<Longrightarrow> keepsIntervals s s'"
  by (simp add: keepsIntervals_def idsFresh_def)

lemma startCameraSettled_keeps: "keepsIntervals s (startCameraSettled r s)"
  by (cases r)
    (auto simp: keepsIntervals_def startCameraSettled_def setIsCameraOn_def consoleError_def
      addTimer_def intervalsOf_append idsFresh_def list_all_iff)

lemma fire_keeps: "idsFresh s \<Longrightarrow> keepsIntervals s (fire n s)"
proof (cases "map_of (timers s) n")
  case None
  then show ?thesis by (simp add: fire_def keepsIntervals_def)
next
  case (Some t)
  assume fresh: "idsFresh s"
  show ?thesis
  proof (cases t)
    case (Interval p m)
    with Some show ?thesis by (simp add: fire_def keepsIntervals_same)
  next
    case (Timeout d st)
    with Some fresh have "intervalsOf (filter (\<lambda>(k, t). k \<noteq> n) (timers s)) = intervalsOf (timers s)"
      by (simp add: intervalsOf_drop_timeout idsFresh_def)
    moreover have "idsFresh (s\<lparr>timers := filter (\<lambda>(k, t). k \<noteq> n) (timers s)\<rparr>)"
      using fresh by (rule idsFresh_filter)
    ultimately show ?thesis using Some Timeout
      by (simp add: fire_def keepsIntervals_def idsFresh_def)
  qed
qed

lemma continue_keeps:
  "continue t r s = Some s' \<Longrightarrow> keepsIntervals s s'"
  by (cases t; cases r) (auto simp: keepsIntervals_same startCameraSettled_keeps)

lemma settle_keeps: "keepsIntervals s (settle i r s)"
proof (cases "i < length (pending s)")
  case False
  then show ?thesis by (simp add: settle_def keepsIntervals_def)
next
  case True
  let ?s0 = "s\<lparr>pending := take i (pending s) @ drop (Suc i) (pending s)\<rparr>"
  show ?thesis
  proof (cases "continue (pending s ! i) r ?s0")
    case None
    with True show ?thesis by (simp add: settle_def keepsIntervals_def)
  next
    case (Some s')
    then have "keepsIntervals ?s0 s'" by (rule continue_keeps)
    then have "keepsIntervals s s'" by (simp add: keepsIntervals_def idsFresh_def)
    with True Some show ?thesis by (simp add: settle_def)
  qed
qed

lemma commit_timersOk:
  assumes "timersOk old" "mounted old" "keepsIntervals old new"
  shows "timersOk (commit old new)"
  using assms
  by (auto simp: timersOk_def keepsIntervals_def commit_def unmount_def Let_def intervalCleanup_def
      clearInterval_def intervalEffect_def addTimer_def intervalsOf_append intervalsOf_filter
      idsFresh_def list_all_iff distinct_map_filter split: option.splits if_splits)

lemma unmounted_timersOk:
  assumes "timersOk s" "\<not> mounted s" "keepsIntervals s s'"
  shows "timersOk s'"
  using assms by (auto simp: timersOk_def keepsIntervals_def)

lemma unmount_timersOk:
  assumes "timersOk s" "mounted s"
  shows "timersOk (unmount d s)"
  using assms
  by (auto simp: timersOk_def unmount_def Let_def intervalCleanup_def clearInterval_def
      intervalsOf_filter idsFresh_def list_all_iff distinct_map_filter
      split: option.splits if_splits)

lemma step_timersOk: "timersOk s \<Longrightarrow> timersOk (step e s)"
proof (cases e)
  case ClickCamera
  assume "timersOk s"
  then show ?thesis using ClickCamera
    by (auto intro!: commit_timersOk keepsIntervals_same)
next
  case (ClickMode m)
  assume "timersOk s"
  then show ?thesis using ClickMode
    by (auto intro!: commit_timersOk keepsIntervals_same)
next
  case (Fire n)
  assume ok: "timersOk s"
  then have "keepsIntervals s (fire n s)" by (simp add: fire_keeps timersOk_def)
  with ok show ?thesis using Fire
    by (auto intro: commit_timersOk unmounted_timersOk)
next
  case (Settle i r)
  assume ok: "timersOk s"
  have "keepsIntervals s (settle i r s)" by (rule settle_keeps)
  with ok show ?thesis using Settle
    by (auto intro: commit_timersOk unmounted_timersOk)
next
  case (Unmount d)
  assume "timersOk s"
  then show ?thesis using Unmount by (auto intro: unmount_timersOk)
qed

lemma mount_timersOk: "timersOk mount"
  by (simp add: timersOk_def mount_def intervalEffect_def idsFresh_def)

lemma fold_step_timersOk: "timersOk s \<Longrightarrow> timersOk (fold step es s)"
  by (induction es arbitrary: s) (simp_all add: step_timersOk)

lemma run_timersOk: "timersOk (run es mount)"
  by (simp add: run_def fold_step_timersOk mount_timersOk)

lemma interval_fire:
  assumes "timersOk s" and "mounted s" and "isCameraOn s" and "interval s = Some k"
  shows "fire k s = captureAndSendFrame (mode s) s"
proof -
  from assms have iv: "intervalsOf (timers s) = [(k, 1000, mode s)]"
    by (simp add: timersOk_def)
  from assms(1) have "distinct (map fst (timers s))" by (simp add: timersOk_def idsFresh_def)
  then have "map_of (timers s) k = Some (Interval 1000 (mode s))"
    using iv by (rule interval_lookup)
  then show ?thesis by (simp add: fire_def)
qed

text \<open>
  Every frame that joins the pending list is queued under the mode of the state it was
  captured in; no event changes an entry that is already pending.
\<close>

lemma interval_member:
  assumes "timersOk s" and "map_of (timers s) n = Some (Interval p m)"
  shows "m = mode s"
proof -
  from assms(2) have "(n, Interval p m) \<in> set (timers s)" by (rule map_of_SomeD)
  then have "(n, p, m) \<in> set (intervalsOf (timers s))" by (simp add: intervalsOf_set)
  with assms(1) show ?thesis
    by (auto simp: timersOk_def split: if_splits option.splits)
qed

lemma fire_queues_current_mode:
  assumes "timersOk s" and "AwaitBlob m \<in> set (pending (fire n s))"
  shows "AwaitBlob m \<in> set (pending s) \<or> m = mode s"
proof (cases "map_of (timers s) n")
  case None
  with assms(2) show ?thesis by (simp add: fire_def)
next
  case (Some t)
  show ?thesis
  proof (cases t)
    case (Interval p m')
    with Some assms(1) have "m' = mode s" by (simp add: interval_member)
    with Some Interval assms(2) show ?thesis
      by (auto simp: fire_def captureAndSendFrame_def split: option.splits if_splits)
  next
    case (Timeout d st)
    with Some assms(2) show ?thesis
      by (auto simp: fire_def attachStream_def split: option.splits)
  qed
qed

lemma continue_queues_nothing:
  assumes "continue t r s = Some s'" and "AwaitBlob m \<in> set (pending s')"
  shows "AwaitBlob m \<in> set (pending s)"
  using assms
  by (cases t; cases r)
     (auto simp: startCameraSettled_def setIsCameraOn_def addTimer_def consoleError_def
        blobCallback_def fetchSettled_def Let_def split: outcome.splits option.splits)

lemma settle_queues_nothing:
  assumes "AwaitBlob m \<in> set (pending (settle i r s))"
  shows "AwaitBlob m \<in> set (pending s)"
proof (cases "i < length (pending s)")
  case False
  with assms show ?thesis by (simp add: settle_def)
next
  case True
  let ?s0 = "s\<lparr>pending := take i (pending s) @ drop (Suc i) (pending s)\<rparr>"
  show ?thesis
  proof (cases "continue (pending s ! i) r ?s0")
    case None
    with assms True show ?thesis by (simp add: settle_def)
  next
    case (Some s')
    with assms True have "AwaitBlob m \<in> set (pending s')" by (simp add: settle_def)
    with Some have "AwaitBlob m \<in> set (pending ?s0)" by (rule continue_queues_nothing)
    then show ?thesis by (auto dest: in_set_takeD in_set_dropD)
  qed
qed

lemma step_queues_current_mode:
  assumes "timersOk s" and "AwaitBlob m \<in> set (pending (step e s))"
  shows "AwaitBlob m \<in> set (pending s) \<or> m = mode s"
proof (cases e)
  case ClickCamera
  with assms(2) show ?thesis
    by (auto simp: clickCamera_def startCamera_def split: if_splits)
next
  case (ClickMode m')
  with assms(2) show ?thesis by (auto simp: setMode_def split: if_splits)
next
  case (Fire n)
  with assms(2) have "AwaitBlob m \<in> set (pending (fire n s))" by (simp split: if_splits)
  with assms(1) show ?thesis by (rule fire_queues_current_mode)
next
  case (Settle i r)
  with assms(2) have "AwaitBlob m \<in> set (pending (settle i r s))" by (simp split: if_splits)
  then show ?thesis by (simp add: settle_queues_nothing)
next
  case (Unmount d)
  with assms(2) show ?thesis by (simp split: if_splits)
qed

lemma step_settle_blob:
  assumes "i < length (pending t)" and "pending t ! i = AwaitBlob m"
  shows "requestsOf (effects (step (Settle i (BlobResult (Some b))) t)) =
           requestsOf (effects t) @
           [\<lparr>reqUrl = endpoint m, reqMethod = Some ''POST'', reqHeaders = None,
             reqBody = Some [(''file'', b, ''frame.jpg'')], reqCredentials = None\<rparr>]"
proof -
  have "settle i (BlobResult (Some b)) t =
      blobCallback m (Some b) (t\<lparr>pending := take i (pending t) @ drop (Suc i) (pending t)\<rparr>)"
    using assms by (simp add: settle_def)
  then have "requestsOf (effects (settle i (BlobResult (Some b)) t)) =
      requestsOf (effects t) @
      [\<lparr>reqUrl = endpoint m, reqMethod = Some ''POST'', reqHeaders = None,
        reqBody = Some [(''file'', b, ''frame.jpg'')], reqCredentials = None\<rparr>]"
    by (simp add: blobCallback_requests)
  then show ?thesis by simp
qed

subsection \<open>The label under every event\<close>

lemma jsonSettled_prediction:
  "prediction (jsonSettled (Resolved d) s) =
     (if truthy (fieldOf d ''body_pose'') then fieldOf d ''body_pose''
      else if truthy (fieldOf d ''hand_gesture'') then fieldOf d ''hand_gesture''
      else prediction s)"
  by (cases d) (simp_all add: jsonSettled_def fieldOf_def consoleError_def setPrediction_def Let_def)

lemma jsonSettled_predictionOk: "predictionOk s \<Longrightarrow> predictionOk (jsonSettled r s)"
proof (cases r)
  case (Resolved d)
  assume "predictionOk s"
  then show ?thesis unfolding Resolved predictionOk_def jsonSettled_prediction by simp
next
  case (Rejected e)
  assume "predictionOk s"
  then show ?thesis using Rejected
    by (simp add: predictionOk_def jsonSettled_def consoleError_def)
qed

lemma continue_predictionOk:
  "continue t r s = Some s' \<Longrightarrow> predictionOk s \<Longrightarrow> predictionOk s'"
  by (cases t; cases r) (auto simp: jsonSettled_predictionOk, simp_all add: predictionOk_def)

lemma settle_predictionOk: "predictionOk s \<Longrightarrow> predictionOk (settle i r s)"
proof -
  assume ok: "predictionOk s"
  let ?s0 = "s\<lparr>pending := take i (pending s) @ drop (Suc i) (pending s)\<rparr>"
  from ok have ok0: "predictionOk ?s0" by (simp add: predictionOk_def)
  show ?thesis
  proof (cases "continue (pending s ! i) r ?s0")
    case None
    with ok show ?thesis by (simp add: settle_def)
  next
    case (Some s')
    then have "predictionOk s'" using ok0 by (rule continue_predictionOk)
    with ok Some show ?thesis by (simp add: settle_def)
  qed
qed

lemma step_predictionOk: "predictionOk s \<Longrightarrow> predictionOk (step e s)"
proof (cases e)
  case (Settle i r)
  assume "predictionOk s"
  then have "predictionOk (settle i r s)" by (rule settle_predictionOk)
  then show ?thesis using Settle by (simp add: predictionOk_def)
qed (simp_all add: predictionOk_def)

lemma fold_step_predictionOk: "predictionOk s \<Longrightarrow> predictionOk (fold step es s)"
  by (induction es arbitrary: s) (simp_all add: step_predictionOk)

lemma mount_predictionOk: "predictionOk mount"
  by (simp add: predictionOk_def mount_def intervalEffect_def)

lemma run_predictionOk: "predictionOk (run es mount)"
  unfolding run_def using mount_predictionOk by (rule fold_step_predictionOk)

lemma predictionSpans_one: "predictionSpans s = [predictionLabel s]"
  by (cases "mode s") (simp_all add: predictionSpans_def)

lemma predictionLabel_text:
  "predictionOk s \<Longrightarrow>
   predictionLabel s = (if prediction s = JStr [] then JStr ''N/A'' else prediction s)"
  by (auto simp: predictionLabel_def js_or_def predictionOk_def)

lemma reactChild_text: "isText v \<Longrightarrow> reactChild v = Some [v]"
  by (cases v) simp_all

lemma spans_render:
  assumes "predictionOk s" and "isText (prediction s)"
  shows "reactChildren (predictionSpans s) =
           Some [if prediction s = JStr [] then JStr ''N/A'' else prediction s]"
proof -
  have "isText (predictionLabel s)"
    using assms by (simp add: predictionLabel_text)
  then have "reactChild (predictionLabel s) = Some [predictionLabel s]"
    by (rule reactChild_text)
  then show ?thesis using assms(1) by (simp add: predictionSpans_one predictionLabel_text)
qed

lemma render_label:
  assumes "mounted s" and "predictionOk s" and "isText (prediction s)"
  shows "render s = Some [if prediction s = JStr [] then JStr ''N/A'' else prediction s]"
  using assms by (simp add: render_def spans_render)


subsection \<open>The requests under every event\<close>

lemma frameRequest_posted:
  "frameRequest \<lparr>reqUrl = endpoint m, reqMethod = Some ''POST'', reqHeaders = None,
     reqBody = Some [(''file'', b, ''frame.jpg'')], reqCredentials = None\<rparr>"
  by (cases m) (simp_all add: frameRequest_def)

lemma continue_requests:
  assumes "continue t r s = Some s'" and "list_all frameRequest (requestsOf (effects s))"
  shows "list_all frameRequest (requestsOf (effects s'))"
proof (cases t)
  case (AwaitBlob m)
  show ?thesis
  proof (cases r)
    case (BlobResult b)
    show ?thesis
    proof (cases b)
      case None
      with assms AwaitBlob BlobResult show ?thesis by (auto simp: blobCallback_def)
    next
      case (Some bl)
      with assms AwaitBlob BlobResult show ?thesis
        by (auto simp: blobCallback_requests frameRequest_posted)
    qed
  qed (use assms AwaitBlob in simp_all)
next
  case AwaitMedia
  with assms show ?thesis by (cases r) auto
next
  case (AwaitFetch q)
  with assms show ?thesis by (cases r) auto
next
  case (AwaitJson p)
  with assms show ?thesis by (cases r) auto
qed

lemma settle_requests:
  assumes "list_all frameRequest (requestsOf (effects s))"
  shows "list_all frameRequest (requestsOf (effects (settle i r s)))"
proof -
  let ?s0 = "s\<lparr>pending := take i (pending s) @ drop (Suc i) (pending s)\<rparr>"
  from assms have ok0: "list_all frameRequest (requestsOf (effects ?s0))" by simp
  show ?thesis
  proof (cases "continue (pending s ! i) r ?s0")
    case None
    with assms show ?thesis by (simp add: settle_def)
  next
    case (Some s')
    then have "list_all frameRequest (requestsOf (effects s'))" using ok0 by (rule continue_requests)
    with assms Some show ?thesis by (simp add: settle_def)
  qed
qed

lemma step_requests:
  "list_all frameRequest (requestsOf (effects s)) \<Longrightarrow>
   list_all frameRequest (requestsOf (effects (step e s)))"
  by (cases e) (simp_all add: settle_requests)

lemma fold_step_requests:
  "list_all frameRequest (requestsOf (effects s)) \<Longrightarrow>
   list_all frameRequest (requestsOf (effects (fold step es s)))"
  by (induction es arbitrary: s) (simp_all add: step_requests)

lemma mount_requests: "list_all frameRequest (requestsOf (effects mount))"
  by (simp add: mount_def intervalEffect_def)

lemma run_requests: "list_all frameRequest (requestsOf (effects (run es mount)))"
  unfolding run_def using mount_requests by (rule fold_step_requests)

section \<open>Properties of the widget\<close>

text \<open>
  C1. In every state the component reaches from its first render, whatever the events:
  while it is mounted and \<open>isCameraOn\<close> is true, exactly one interval is registered, with
  period 1000 and the \<open>captureAndSendFrame\<close> of the current mode; its firing is a call of
  \<open>captureAndSendFrame\<close> and leaves it registered, so it fires again. When \<open>isCameraOn\<close>
  is false or the component is not mounted, no interval is registered, and unmounting
  clears the one there is. The period is the number passed to \<^verbatim>\<open>setInterval\<close>; the
  clock itself is the browser's.
\<close>

theorem interval_follows_isCameraOn:
  assumes "s = run es mount"
  shows "(mounted s \<and> isCameraOn s \<longrightarrow>
            (\<exists>k. interval s = Some k \<and> intervalsOf (timers s) = [(k, 1000, mode s)] \<and>
                 fire k s = captureAndSendFrame (mode s) s \<and>
                 timers (fire k s) = timers s)) \<and>
         (\<not> (mounted s \<and> isCameraOn s) \<longrightarrow> intervalsOf (timers s) = []) \<and>
         intervalsOf (timers (step (Unmount d) s)) = []"
proof -
  have ok: "timersOk s" using assms by (simp add: run_timersOk)
  have on: "\<exists>k. interval s = Some k \<and> intervalsOf (timers s) = [(k, 1000, mode s)] \<and>
                fire k s = captureAndSendFrame (mode s) s \<and> timers (fire k s) = timers s"
    if "mounted s \<and> isCameraOn s"
  proof -
    from ok that obtain k where k: "interval s = Some k"
      and iv: "intervalsOf (timers s) = [(k, 1000, mode s)]"
      by (auto simp: timersOk_def split: option.splits)
    from ok have "distinct (map fst (timers s))" by (simp add: timersOk_def idsFresh_def)
    then have "map_of (timers s) k = Some (Interval 1000 (mode s))"
      using iv by (rule interval_lookup)
    then have "fire k s = captureAndSendFrame (mode s) s" by (simp add: fire_def)
    with k iv show ?thesis by simp
  qed
  have off: "intervalsOf (timers s) = []" if "\<not> (mounted s \<and> isCameraOn s)"
    using ok that by (auto simp: timersOk_def split: if_splits)
  have "timersOk (step (Unmount d) s)" using ok by (rule step_timersOk)
  moreover have "\<not> mounted (step (Unmount d) s)" by simp
  ultimately have gone: "intervalsOf (timers (step (Unmount d) s)) = []"
    by (simp add: timersOk_def)
  from on off gone show ?thesis by blast
qed

theorem interval_follows_isCameraOn_witness:
  "isCameraOn (run [ClickCamera, Settle 0 (MediaResult (Resolved (MediaStream [0, 1])))] mount) \<and>
   intervalsOf (timers (run [ClickCamera, Settle 0 (MediaResult (Resolved (MediaStream [0, 1])))] mount))
     = [(1, 1000, Hand)] \<and>
   \<not> isCameraOn (run [] mount) \<and>
   intervalsOf (timers (run [] mount)) = [] \<and>
   intervalsOf (timers (step (Unmount True)
     (run [ClickCamera, Settle 0 (MediaResult (Resolved (MediaStream [0, 1])))] mount))) = []"
proof -
  let ?s = "run [ClickCamera, Settle 0 (MediaResult (Resolved (MediaStream [0, 1])))] mount"
  have on: "mounted ?s" "isCameraOn ?s" "interval ?s = Some 1" "mode ?s = Hand"
    unfolding camera_on_state by simp_all
  have off: "\<not> isCameraOn (run [] mount)"
    by (simp add: run_def mount_def intervalEffect_def)
  from interval_follows_isCameraOn [OF refl, of "[ClickCamera, Settle 0 (MediaResult (Resolved (MediaStream [0, 1])))]" True]
       interval_follows_isCameraOn [OF refl, of "[]" True] on off
  show ?thesis by simp
qed

text \<open>
  C2, as stated, promises the JSON parse for every invocation that has the video, the
  canvas, the context and the blob. It is not made when the fetch rejects: in the session
  below the interval fires, the frame is drawn, encoded and posted, the fetch fails, and
  the log of calls ends with the fetch.
\<close>

theorem parse_skipped_when_fetch_rejects:
  "effects (step (Settle 0 (FetchResult (Rejected (TypeError ''Failed to fetch''))))
     (run [ClickCamera, Settle 0 (MediaResult (Resolved (MediaStream [0, 1]))), Fire 0, Fire 1,
           Settle 0 (BlobResult (Some \<lparr>blobType = ''image/jpeg'', blobBytes = [255, 216]\<rparr>))]
        mount)) =
     [GetUserMedia,
      DrawImage \<lparr>srcObject = Some (MediaStream [0, 1])\<rparr> 0 0 640 480,
      CanvasToBlob ''image/jpeg'',
      FetchCall \<lparr>reqUrl = ''http://localhost:8000/predict/hand/'',
        reqMethod = Some ''POST'', reqHeaders = None,
        reqBody = Some [(''file'', \<lparr>blobType = ''image/jpeg'', blobBytes = [255, 216]\<rparr>,
                         ''frame.jpg'')],
        reqCredentials = None\<rparr>] \<and>
   \<not> list_ex isResponseJson
       (effects (step (Settle 0 (FetchResult (Rejected (TypeError ''Failed to fetch''))))
          (run [ClickCamera, Settle 0 (MediaResult (Resolved (MediaStream [0, 1]))), Fire 0, Fire 1,
                Settle 0 (BlobResult (Some \<lparr>blobType = ''image/jpeg'', blobBytes = [255, 216]\<rparr>))]
             mount)))"
  unfolding posted_state by (simp add: eval_defs)

text \<open>
  C2, amended. With the video ref, the canvas ref and the 2d context present and a blob
  delivered, \<open>captureAndSendFrame\<close> makes these calls and no others, in this order: it
  draws the video onto the canvas at the canvas size, encodes the canvas as image/jpeg,
  and posts the blob as the form field "file" with the file name "frame.jpg" to the
  endpoint of its mode. When the fetch resolves it then parses the response as JSON;
  when the fetch rejects it makes no further call. Handling the parsed value makes no
  call either.
\<close>

theorem captureAndSendFrame_steps:
  assumes "videoRef s = Some v" and "canvasRef s = Some c" and "context2d c"
  shows "effects (blobCallback m (Some b) (captureAndSendFrame m s)) =
           effects s @
           [DrawImage v 0 0 (width c) (height c), CanvasToBlob ''image/jpeg'',
            FetchCall \<lparr>reqUrl = endpoint m, reqMethod = Some ''POST'', reqHeaders = None,
              reqBody = Some [(''file'', b, ''frame.jpg'')], reqCredentials = None\<rparr>] \<and>
         effects (fetchSettled (Resolved p) (blobCallback m (Some b) (captureAndSendFrame m s))) =
           effects s @
           [DrawImage v 0 0 (width c) (height c), CanvasToBlob ''image/jpeg'',
            FetchCall \<lparr>reqUrl = endpoint m, reqMethod = Some ''POST'', reqHeaders = None,
              reqBody = Some [(''file'', b, ''frame.jpg'')], reqCredentials = None\<rparr>,
            ResponseJson p] \<and>
         effects (fetchSettled (Rejected e) (blobCallback m (Some b) (captureAndSendFrame m s))) =
           effects s @
           [DrawImage v 0 0 (width c) (height c), CanvasToBlob ''image/jpeg'',
            FetchCall \<lparr>reqUrl = endpoint m, reqMethod = Some ''POST'', reqHeaders = None,
              reqBody = Some [(''file'', b, ''frame.jpg'')], reqCredentials = None\<rparr>] \<and>
         effects (jsonSettled r s') = effects s'"
proof -
  have capture: "effects (captureAndSendFrame m s) =
      effects s @ [DrawImage v 0 0 (width c) (height c), CanvasToBlob ''image/jpeg'']"
    using assms by (simp add: captureAndSendFrame_def)
  have post: "effects (blobCallback m (Some b) t) =
      effects t @ [FetchCall \<lparr>reqUrl = endpoint m, reqMethod = Some ''POST'', reqHeaders = None,
        reqBody = Some [(''file'', b, ''frame.jpg'')], reqCredentials = None\<rparr>]" for t
    by (simp add: blobCallback_def Let_def)
  have parse: "effects (fetchSettled (Resolved p) t) = effects t @ [ResponseJson p]" for t
    by (simp add: fetchSettled_def)
  have failed: "effects (fetchSettled (Rejected e) t) = effects t" for t
    by (simp add: fetchSettled_def consoleError_def)
  have quiet: "effects (jsonSettled r s') = effects s'"
    by (simp add: jsonSettled_def consoleError_def setPrediction_def Let_def
        split: outcome.splits sum.splits)
  show ?thesis by (simp add: capture post parse failed quiet)
qed

theorem captureAndSendFrame_steps_witness:
  "effects (fetchSettled (Resolved (Response 200))
     (blobCallback Hand (Some \<lparr>blobType = ''image/jpeg'', blobBytes = [255, 216]\<rparr>)
        (captureAndSendFrame Hand
           (run [ClickCamera, Settle 0 (MediaResult (Resolved (MediaStream [0, 1]))), Fire 0] mount)))) =
     [GetUserMedia,
      DrawImage \<lparr>srcObject = Some (MediaStream [0, 1])\<rparr> 0 0 640 480,
      CanvasToBlob ''image/jpeg'',
      FetchCall \<lparr>reqUrl = ''http://localhost:8000/predict/hand/'',
        reqMethod = Some ''POST'', reqHeaders = None,
        reqBody = Some [(''file'', \<lparr>blobType = ''image/jpeg'', blobBytes = [255, 216]\<rparr>,
                         ''frame.jpg'')],
        reqCredentials = None\<rparr>,
      ResponseJson (Response 200)]"
proof -
  let ?s = "run [ClickCamera, Settle 0 (MediaResult (Resolved (MediaStream [0, 1]))), Fire 0] mount"
  have v: "videoRef ?s = Some \<lparr>srcObject = Some (MediaStream [0, 1])\<rparr>"
    and c: "canvasRef ?s = Some \<lparr>width = 640, height = 480, context2d = True\<rparr>"
    and x: "context2d \<lparr>width = 640, height = 480, context2d = True\<rparr>"
    and e: "effects ?s = [GetUserMedia]"
    unfolding streaming_state by simp_all
  from captureAndSendFrame_steps [OF v c x, of Hand _ "Response 200"] e
  show ?thesis by (simp add: endpoint_def)
qed

text \<open>
  C3. When the fetch rejects, or \<^verbatim>\<open>response.json()\<close> rejects, the state after the
  \<^verbatim>\<open>catch\<close> block is the state before with one more console entry, the error. As an
  event of the component: the failed entry leaves the pending list, the error joins the
  console, and the prediction, the rest of the pending work (nothing is started again),
  the list of calls (no second fetch), the timers and every other field are as they
  were.
\<close>

theorem upload_failure_only_logs:
  "fetchSettled (Rejected e) s =
     s\<lparr>console := console s @ [ConsoleError ''Error fetching prediction:'' e]\<rparr> \<and>
   jsonSettled (Rejected e) s =
     s\<lparr>console := console s @ [ConsoleError ''Error fetching prediction:'' e]\<rparr> \<and>
   (i < length (pending s) \<and> pending s ! i = AwaitFetch q \<longrightarrow>
      step (Settle i (FetchResult (Rejected e))) s =
        s\<lparr>pending := take i (pending s) @ drop (Suc i) (pending s),
          console := console s @ [ConsoleError ''Error fetching prediction:'' e]\<rparr>) \<and>
   (i < length (pending s) \<and> pending s ! i = AwaitJson p \<longrightarrow>
      step (Settle i (JsonResult (Rejected e))) s =
        s\<lparr>pending := take i (pending s) @ drop (Suc i) (pending s),
          console := console s @ [ConsoleError ''Error fetching prediction:'' e]\<rparr>)"
proof -
  have caught: "fetchSettled (Rejected e) t =
      t\<lparr>console := console t @ [ConsoleError ''Error fetching prediction:'' e]\<rparr>"
    "jsonSettled (Rejected e) t =
      t\<lparr>console := console t @ [ConsoleError ''Error fetching prediction:'' e]\<rparr>" for t
    by (simp_all add: fetchSettled_def jsonSettled_def consoleError_def)
  have fetch: "step (Settle i (FetchResult (Rejected e))) s =
        s\<lparr>pending := take i (pending s) @ drop (Suc i) (pending s),
          console := console s @ [ConsoleError ''Error fetching prediction:'' e]\<rparr>"
    if "i < length (pending s) \<and> pending s ! i = AwaitFetch q"
  proof -
    from that have "settle i (FetchResult (Rejected e)) s =
        s\<lparr>pending := take i (pending s) @ drop (Suc i) (pending s),
          console := console s @ [ConsoleError ''Error fetching prediction:'' e]\<rparr>"
      by (simp add: settle_def caught)
    then show ?thesis by (simp add: commit_same)
  qed
  have parse: "step (Settle i (JsonResult (Rejected e))) s =
        s\<lparr>pending := take i (pending s) @ drop (Suc i) (pending s),
          console := console s @ [ConsoleError ''Error fetching prediction:'' e]\<rparr>"
    if "i < length (pending s) \<and> pending s ! i = AwaitJson p"
  proof -
    from that have "settle i (JsonResult (Rejected e)) s =
        s\<lparr>pending := take i (pending s) @ drop (Suc i) (pending s),
          console := console s @ [ConsoleError ''Error fetching prediction:'' e]\<rparr>"
      by (simp add: settle_def caught)
    then show ?thesis by (simp add: commit_same)
  qed
  from caught [of s] fetch parse show ?thesis by simp
qed

theorem upload_failure_only_logs_witness:
  "step (Settle 0 (FetchResult (Rejected (TypeError ''Failed to fetch''))))
     (run [ClickCamera, Settle 0 (MediaResult (Resolved (MediaStream [0, 1]))), Fire 0, Fire 1,
           Settle 0 (BlobResult (Some \<lparr>blobType = ''image/jpeg'', blobBytes = [255, 216]\<rparr>))]
        mount) =
   (run [ClickCamera, Settle 0 (MediaResult (Resolved (MediaStream [0, 1]))), Fire 0, Fire 1,
           Settle 0 (BlobResult (Some \<lparr>blobType = ''image/jpeg'', blobBytes = [255, 216]\<rparr>))]
        mount)
     \<lparr>pending := [],
      console := [ConsoleLog ''Camera started and video element found.'',
                  ConsoleError ''Error fetching prediction:'' (TypeError ''Failed to fetch'')]\<rparr> \<and>
   step (Settle 0 (JsonResult (Rejected (SyntaxError ''Unexpected token''))))
     (run [ClickCamera, Settle 0 (MediaResult (Resolved (MediaStream [0, 1]))), Fire 0, Fire 1,
           Settle 0 (BlobResult (Some \<lparr>blobType = ''image/jpeg'', blobBytes = [255, 216]\<rparr>)),
           Settle 0 (FetchResult (Resolved (Response 200)))] mount) =
   (run [ClickCamera, Settle 0 (MediaResult (Resolved (MediaStream [0, 1]))), Fire 0, Fire 1,
           Settle 0 (BlobResult (Some \<lparr>blobType = ''image/jpeg'', blobBytes = [255, 216]\<rparr>)),
           Settle 0 (FetchResult (Resolved (Response 200)))] mount)
     \<lparr>pending := [],
      console := [ConsoleLog ''Camera started and video element found.'',
                  ConsoleError ''Error fetching prediction:'' (SyntaxError ''Unexpected token'')]\<rparr>"
proof -
  let ?a = "run [ClickCamera, Settle 0 (MediaResult (Resolved (MediaStream [0, 1]))), Fire 0, Fire 1,
           Settle 0 (BlobResult (Some \<lparr>blobType = ''image/jpeg'', blobBytes = [255, 216]\<rparr>))]
        mount"
  let ?b = "run [ClickCamera, Settle 0 (MediaResult (Resolved (MediaStream [0, 1]))), Fire 0, Fire 1,
           Settle 0 (BlobResult (Some \<lparr>blobType = ''image/jpeg'', blobBytes = [255, 216]\<rparr>)),
           Settle 0 (FetchResult (Resolved (Response 200)))] mount"
  have a: "pending ?a = [AwaitFetch \<lparr>reqUrl = ''http://localhost:8000/predict/hand/'',
                   reqMethod = Some ''POST'', reqHeaders = None,
                   reqBody = Some [(''file'', \<lparr>blobType = ''image/jpeg'', blobBytes = [255, 216]\<rparr>,
                                    ''frame.jpg'')],
                   reqCredentials = None\<rparr>]"
    and ca: "console ?a = [ConsoleLog ''Camera started and video element found.'']"
    unfolding posted_state by simp_all
  have b: "pending ?b = [AwaitJson (Response 200)]"
    and cb: "console ?b = [ConsoleLog ''Camera started and video element found.'']"
    unfolding parsing_state by simp_all
  from upload_failure_only_logs [of "TypeError ''Failed to fetch''" ?a 0 _ "Response 200"]
       upload_failure_only_logs [of "SyntaxError ''Unexpected token''" ?b 0 _ "Response 200"]
       a ca b cb
  show ?thesis by simp
qed

text \<open>
  C4, as stated, has the label shown for every parsed response. It is not shown when the
  field is not text: after \<^verbatim>\<open>{"hand_gesture": true}\<close> the prediction is \<^verbatim>\<open>true\<close>,
  for which React puts nothing into the span, neither the prediction nor "N/A"; after
  \<^verbatim>\<open>{"hand_gesture": {"label": "Pataka"}}\<close> the prediction is an object, the render
  throws and the component is gone.
\<close>

theorem label_missing_for_boolean_and_object:
  "prediction (step (Settle 0 (JsonResult (Resolved (JObj [(''hand_gesture'', JBool True)]))))
     (run [ClickCamera, Settle 0 (MediaResult (Resolved (MediaStream [0, 1]))), Fire 0, Fire 1,
           Settle 0 (BlobResult (Some \<lparr>blobType = ''image/jpeg'', blobBytes = [255, 216]\<rparr>)),
           Settle 0 (FetchResult (Resolved (Response 200)))] mount)) = JBool True \<and>
   mounted (step (Settle 0 (JsonResult (Resolved (JObj [(''hand_gesture'', JBool True)]))))
     (run [ClickCamera, Settle 0 (MediaResult (Resolved (MediaStream [0, 1]))), Fire 0, Fire 1,
           Settle 0 (BlobResult (Some \<lparr>blobType = ''image/jpeg'', blobBytes = [255, 216]\<rparr>)),
           Settle 0 (FetchResult (Resolved (Response 200)))] mount)) \<and>
   render (step (Settle 0 (JsonResult (Resolved (JObj [(''hand_gesture'', JBool True)]))))
     (run [ClickCamera, Settle 0 (MediaResult (Resolved (MediaStream [0, 1]))), Fire 0, Fire 1,
           Settle 0 (BlobResult (Some \<lparr>blobType = ''image/jpeg'', blobBytes = [255, 216]\<rparr>)),
           Settle 0 (FetchResult (Resolved (Response 200)))] mount)) = Some [] \<and>
   \<not> mounted (step (Settle 0 (JsonResult (Resolved
        (JObj [(''hand_gesture'', JObj [(''label'', JStr ''Pataka'')])]))))
     (run [ClickCamera, Settle 0 (MediaResult (Resolved (MediaStream [0, 1]))), Fire 0, Fire 1,
           Settle 0 (BlobResult (Some \<lparr>blobType = ''image/jpeg'', blobBytes = [255, 216]\<rparr>)),
           Settle 0 (FetchResult (Resolved (Response 200)))] mount)) \<and>
   render (step (Settle 0 (JsonResult (Resolved
        (JObj [(''hand_gesture'', JObj [(''label'', JStr ''Pataka'')])]))))
     (run [ClickCamera, Settle 0 (MediaResult (Resolved (MediaStream [0, 1]))), Fire 0, Fire 1,
           Settle 0 (BlobResult (Some \<lparr>blobType = ''image/jpeg'', blobBytes = [255, 216]\<rparr>)),
           Settle 0 (FetchResult (Resolved (Response 200)))] mount)) = Some []"
  unfolding parsing_state by (simp add: eval_defs render_def)

text \<open>
  C4, amended. In every state the component reaches, while it is mounted, when the parse
  of a response delivers the value \<open>d\<close>, the prediction becomes \<open>d.body_pose\<close> if that is
  truthy, else \<open>d.hand_gesture\<close> if that is truthy, and otherwise stays what it was. When
  the prediction is then a string or a number, the component is still mounted and shows
  exactly one prediction label: the prediction, or "N/A" when the prediction is the empty
  string.
\<close>

theorem label_follows_response:
  assumes "s = run es mount" and "mounted s"
    and "i < length (pending s)" and "pending s ! i = AwaitJson p"
    and "s' = step (Settle i (JsonResult (Resolved d))) s"
  shows "prediction s' =
           (if truthy (fieldOf d ''body_pose'') then fieldOf d ''body_pose''
            else if truthy (fieldOf d ''hand_gesture'') then fieldOf d ''hand_gesture''
            else prediction s) \<and>
         (isText (prediction s') \<longrightarrow>
            mounted s' \<and>
            render s' = Some [if prediction s' = JStr [] then JStr ''N/A'' else prediction s'])"
proof -
  let ?new = "settle i (JsonResult (Resolved d)) s"
  have s': "s' = commit s ?new" using assms(2,5) by simp
  have new: "?new = jsonSettled (Resolved d)
      (s\<lparr>pending := take i (pending s) @ drop (Suc i) (pending s)\<rparr>)"
    using assms(3,4) by (rule settle_json)
  have same: "prediction s' = prediction ?new" unfolding s' by simp
  have label: "prediction s' =
      (if truthy (fieldOf d ''body_pose'') then fieldOf d ''body_pose''
       else if truthy (fieldOf d ''hand_gesture'') then fieldOf d ''hand_gesture''
       else prediction s)"
    unfolding same new by (simp add: jsonSettled_prediction)
  have "s' = run (es @ [Settle i (JsonResult (Resolved d))]) mount"
    using assms(1,5) by (simp add: run_snoc)
  then have ok: "predictionOk s'" by (simp only: run_predictionOk)
  have shown: "mounted s' \<and>
      render s' = Some [if prediction s' = JStr [] then JStr ''N/A'' else prediction s']"
    if shown_as: "isText (prediction s')"
  proof -
    have "predictionOk ?new" "isText (prediction ?new)"
      using ok shown_as by (simp_all add: predictionOk_def same)
    then have "reactChildren (predictionSpans ?new) \<noteq> None"
      by (simp add: spans_render)
    then have "mounted s' = mounted ?new" unfolding s' by (rule commit_rendered(2))
    also have "\<dots> = mounted s" unfolding new by simp
    finally have m: "mounted s'" using assms(2) by simp
    then have "render s' = Some [if prediction s' = JStr [] then JStr ''N/A'' else prediction s']"
      using ok shown_as by (rule render_label)
    with m show ?thesis by simp
  qed
  from label shown show ?thesis by blast
qed

theorem label_follows_response_witness:
  "prediction (step (Settle 0 (JsonResult (Resolved
      (JObj [(''hand_gesture'', JStr ''Pataka''), (''body_pose'', JStr ''Araimandi'')]))))
     (run [ClickCamera, Settle 0 (MediaResult (Resolved (MediaStream [0, 1]))), Fire 0, Fire 1,
           Settle 0 (BlobResult (Some \<lparr>blobType = ''image/jpeg'', blobBytes = [255, 216]\<rparr>)),
           Settle 0 (FetchResult (Resolved (Response 200)))] mount)) = JStr ''Araimandi'' \<and>
   mounted (step (Settle 0 (JsonResult (Resolved
      (JObj [(''hand_gesture'', JStr ''Pataka''), (''body_pose'', JStr ''Araimandi'')]))))
     (run [ClickCamera, Settle 0 (MediaResult (Resolved (MediaStream [0, 1]))), Fire 0, Fire 1,
           Settle 0 (BlobResult (Some \<lparr>blobType = ''image/jpeg'', blobBytes = [255, 216]\<rparr>)),
           Settle 0 (FetchResult (Resolved (Response 200)))] mount)) \<and>
   render (step (Settle 0 (JsonResult (Resolved
      (JObj [(''hand_gesture'', JStr ''Pataka''), (''body_pose'', JStr ''Araimandi'')]))))
     (run [ClickCamera, Settle 0 (MediaResult (Resolved (MediaStream [0, 1]))), Fire 0, Fire 1,
           Settle 0 (BlobResult (Some \<lparr>blobType = ''image/jpeg'', blobBytes = [255, 216]\<rparr>)),
           Settle 0 (FetchResult (Resolved (Response 200)))] mount)) = Some [JStr ''Araimandi'']"
proof -
  let ?s = "run [ClickCamera, Settle 0 (MediaResult (Resolved (MediaStream [0, 1]))), Fire 0, Fire 1,
           Settle 0 (BlobResult (Some \<lparr>blobType = ''image/jpeg'', blobBytes = [255, 216]\<rparr>)),
           Settle 0 (FetchResult (Resolved (Response 200)))] mount"
  have m: "mounted ?s" and n: "0 < length (pending ?s)"
    and t: "pending ?s ! 0 = AwaitJson (Response 200)"
    unfolding parsing_state by simp_all
  from label_follows_response [OF refl m n t refl,
      of "JObj [(''hand_gesture'', JStr ''Pataka''), (''body_pose'', JStr ''Araimandi'')]"]
  show ?thesis by (simp add: fieldOf_def)
qed

text \<open>
  C5, as stated, ties the endpoint to the current mode. The mode the code tests is the one
  in the closure of the \<open>captureAndSendFrame\<close> that captured the frame: in the session
  below a frame is captured in hand mode, the body button is clicked before the blob is
  delivered, and the frame is posted to the hand endpoint while the mode is body.
\<close>

theorem posted_to_hand_while_mode_is_body:
  "map reqUrl (requestsOf (effects
     (run [ClickCamera, Settle 0 (MediaResult (Resolved (MediaStream [0, 1]))), Fire 0, Fire 1,
           ClickMode Body,
           Settle 0 (BlobResult (Some \<lparr>blobType = ''image/jpeg'', blobBytes = [255, 216]\<rparr>))]
        mount))) = [''http://localhost:8000/predict/hand/''] \<and>
   mode (run [ClickCamera, Settle 0 (MediaResult (Resolved (MediaStream [0, 1]))), Fire 0, Fire 1,
           ClickMode Body,
           Settle 0 (BlobResult (Some \<lparr>blobType = ''image/jpeg'', blobBytes = [255, 216]\<rparr>))]
        mount) = Body"
  by (simp add: eval_defs)

text \<open>
  C5, amended. The endpoint of a frame is determined solely by the mode that was current
  when the frame was captured. In every state the component reaches with the camera on,
  the firing interval queues its frame under the current mode; a frame found pending
  after an event was pending before it or is queued under the mode current before it;
  and in whatever state the blob of a frame queued under mode \<open>m\<close> is delivered,
  whatever the mode is by then, the frame is posted to the hand endpoint when \<open>m\<close> is
  hand and to the body endpoint when \<open>m\<close> is body.
\<close>

theorem endpoint_follows_mode:
  assumes "s = run es mount" and "mounted s" and "isCameraOn s" and "interval s = Some k"
    and "videoRef s = Some v" and "canvasRef s = Some c" and "context2d c"
    and "i < length (pending t)" and "pending t ! i = AwaitBlob m"
  shows "pending (step (Fire k) s) = pending s @ [AwaitBlob (mode s)] \<and>
         (AwaitBlob m' \<in> set (pending (step e s)) \<longrightarrow>
            AwaitBlob m' \<in> set (pending s) \<or> m' = mode s) \<and>
         map reqUrl (requestsOf (effects (step (Settle i (BlobResult (Some b))) t))) =
           map reqUrl (requestsOf (effects t)) @
           [if m = Hand then ''http://localhost:8000/predict/hand/''
            else ''http://localhost:8000/predict/body/'']"
proof -
  have ok: "timersOk s" using assms(1) by (simp add: run_timersOk)
  then have tick: "fire k s = captureAndSendFrame (mode s) s"
    using assms(2,3,4) by (rule interval_fire)
  have "pending (step (Fire k) s) = pending (fire k s)" using assms(2) by simp
  also have "\<dots> = pending s @ [AwaitBlob (mode s)]"
    unfolding tick using assms(5,6,7) by (simp add: captureAndSendFrame_def)
  finally have queued: "pending (step (Fire k) s) = pending s @ [AwaitBlob (mode s)]" .
  have origin: "AwaitBlob m' \<in> set (pending s) \<or> m' = mode s"
    if "AwaitBlob m' \<in> set (pending (step e s))"
    using ok that by (rule step_queues_current_mode)
  have posted: "map reqUrl (requestsOf (effects (step (Settle i (BlobResult (Some b))) t))) =
      map reqUrl (requestsOf (effects t)) @
      [if m = Hand then ''http://localhost:8000/predict/hand/''
       else ''http://localhost:8000/predict/body/'']"
    using step_settle_blob [OF assms(8,9), of b] by (simp add: endpoint_def)
  from queued origin posted show ?thesis by blast
qed

theorem endpoint_follows_mode_witness:
  "pending (step (Fire 2)
     (run [ClickCamera, Settle 0 (MediaResult (Resolved (MediaStream [0, 1]))), Fire 0,
           ClickMode Body] mount)) = [AwaitBlob Body] \<and>
   mode (run [ClickCamera, Settle 0 (MediaResult (Resolved (MediaStream [0, 1]))), Fire 0,
           ClickMode Body, Fire 2, ClickMode Hand] mount) = Hand \<and>
   map reqUrl (requestsOf (effects
     (step (Settle 0 (BlobResult (Some \<lparr>blobType = ''image/jpeg'', blobBytes = [255, 216]\<rparr>)))
        (run [ClickCamera, Settle 0 (MediaResult (Resolved (MediaStream [0, 1]))), Fire 0,
              ClickMode Body, Fire 2, ClickMode Hand] mount)))) =
     [''http://localhost:8000/predict/body/'']"
proof -
  let ?s = "run [ClickCamera, Settle 0 (MediaResult (Resolved (MediaStream [0, 1]))), Fire 0,
                 ClickMode Body] mount"
  let ?t = "run [ClickCamera, Settle 0 (MediaResult (Resolved (MediaStream [0, 1]))), Fire 0,
                 ClickMode Body, Fire 2, ClickMode Hand] mount"
  have st: "?s =
     \<lparr>prediction = JStr [], isCameraOn = True, mode = Body,
      videoRef = Some \<lparr>srcObject = None\<rparr>,
      canvasRef = Some \<lparr>width = 640, height = 480, context2d = True\<rparr>,
      mounted = True, interval = Some 2,
      timers = [(2, Interval 1000 Body)],
      nextTimer = 3, pending = [], effects = [GetUserMedia],
      console = [ConsoleLog ''Camera started and video element found.''], ended = {}\<rparr>"
    by (simp add: eval_defs)
  have h: "mounted ?s" "isCameraOn ?s" "interval ?s = Some 2"
    "videoRef ?s = Some \<lparr>srcObject = None\<rparr>"
    "canvasRef ?s = Some \<lparr>width = 640, height = 480, context2d = True\<rparr>"
    "context2d \<lparr>width = 640, height = 480, context2d = True\<rparr>"
    and s: "pending ?s = []" "mode ?s = Body"
    unfolding st by simp_all
  have t: "0 < length (pending ?t)" "pending ?t ! 0 = AwaitBlob Body"
    and t': "mode ?t = Hand" "requestsOf (effects ?t) = []"
    by (simp_all add: eval_defs)
  from endpoint_follows_mode [OF refl h t] s t'
  show ?thesis by simp
qed

text \<open>
  C6. Calling \<open>startCamera\<close> does not change \<open>isCameraOn\<close>; it becomes true when
  \<^verbatim>\<open>getUserMedia\<close> resolves, and when \<^verbatim>\<open>getUserMedia\<close> throws the state afterwards is
  the state before with the error appended to the console, so \<open>isCameraOn\<close>,
  \<open>prediction\<close> and \<open>mode\<close> are unchanged. No other event turns the camera flag on:
  if it is off before an event and on after it, the event is a stream delivered to a
  pending \<^verbatim>\<open>getUserMedia\<close>.
\<close>

theorem startCamera_turns_on_after_stream:
  "isCameraOn (startCamera s) = isCameraOn s \<and>
   isCameraOn (startCameraSettled (Resolved st) s) \<and>
   startCameraSettled (Rejected e) s =
     s\<lparr>console := console s @ [ConsoleError ''Error accessing webcam:'' e]\<rparr> \<and>
   (\<not> isCameraOn s \<and> isCameraOn (step ev s) \<longrightarrow>
      (\<exists>i st'. ev = Settle i (MediaResult (Resolved st')) \<and> i < length (pending s) \<and>
               pending s ! i = AwaitMedia))"
proof -
  have click: "isCameraOn (startCamera s) = isCameraOn s" by simp
  have resolved: "isCameraOn (startCameraSettled (Resolved st) s)"
    by (simp add: startCameraSettled_def setIsCameraOn_def addTimer_def)
  have rejected: "startCameraSettled (Rejected e) s =
      s\<lparr>console := console s @ [ConsoleError ''Error accessing webcam:'' e]\<rparr>"
    by (simp add: startCameraSettled_def consoleError_def)
  have only: "\<exists>i st'. ev = Settle i (MediaResult (Resolved st')) \<and> i < length (pending s) \<and>
                pending s ! i = AwaitMedia"
    if off: "\<not> isCameraOn s" and on: "isCameraOn (step ev s)"
  proof (cases ev)
    case ClickCamera
    with off on show ?thesis
      by (auto simp: clickCamera_def fullScreen_def split: if_splits dest: commit_flags(1))
  next
    case (ClickMode m)
    with off on show ?thesis by (auto split: if_splits dest: commit_flags(1))
  next
    case (Fire n)
    with off on show ?thesis by (auto split: if_splits dest: commit_flags(1))
  next
    case (Unmount d)
    with off on show ?thesis by (simp split: if_splits)
  next
    case (Settle i r)
    with on have on': "isCameraOn (settle i r s)"
      by (auto split: if_splits dest: commit_flags(1))
    with off have len: "i < length (pending s)" by (auto simp: settle_def split: if_splits)
    let ?s0 = "s\<lparr>pending := take i (pending s) @ drop (Suc i) (pending s)\<rparr>"
    from on' off len obtain s' where c: "continue (pending s ! i) r ?s0 = Some s'"
      and s': "isCameraOn s'"
      by (auto simp: settle_def split: option.splits)
    have off0: "\<not> isCameraOn ?s0" using off by simp
    from c s' off0 have "pending s ! i = AwaitMedia \<and> (\<exists>st'. r = MediaResult (Resolved st'))"
      by (cases "pending s ! i"; cases r)
         (auto simp: startCameraSettled_def consoleError_def split: outcome.splits)
    with len Settle show ?thesis by auto
  qed
  from click resolved rejected only show ?thesis by blast
qed

theorem startCamera_turns_on_after_stream_witness:
  "\<not> isCameraOn (run [ClickCamera] mount) \<and>
   isCameraOn (step (Settle 0 (MediaResult (Resolved (MediaStream [0, 1])))) (run [ClickCamera] mount)) \<and>
   pending (run [ClickCamera] mount) ! 0 = AwaitMedia \<and>
   isCameraOn (step (Settle 0 (MediaResult (Rejected (DOMException ''NotAllowedError''))))
      (run [ClickCamera] mount)) = False"
proof -
  let ?s = "run [ClickCamera] mount"
  have off: "\<not> isCameraOn ?s" by (simp add: eval_defs)
  have on: "isCameraOn (step (Settle 0 (MediaResult (Resolved (MediaStream [0, 1])))) ?s)"
    by (simp add: eval_defs)
  have no: "\<not> isCameraOn (step (Settle 0 (MediaResult (Rejected (DOMException ''NotAllowedError'')))) ?s)"
    by (simp add: eval_defs)
  from startCamera_turns_on_after_stream
         [of ?s _ _ "Settle 0 (MediaResult (Resolved (MediaStream [0, 1])))"] off on no
  show ?thesis by auto
qed

text \<open>
  C7. Every fetch the component has made, in every state it reaches, is a POST whose init
  object has no headers and no credentials member and whose body is the form data with
  the single entry "file", the frame, named "frame.jpg"; it goes to one of the two
  prediction endpoints.
\<close>

theorem requests_carry_only_the_frame:
  "\<forall>q \<in> set (requestsOf (effects (run es mount))).
     reqMethod q = Some ''POST'' \<and> reqHeaders q = None \<and> reqCredentials q = None \<and>
     (\<exists>b. reqBody q = Some [(''file'', b, ''frame.jpg'')]) \<and>
     (reqUrl q = ''http://localhost:8000/predict/hand/'' \<or>
      reqUrl q = ''http://localhost:8000/predict/body/'')"
proof
  fix q
  assume "q \<in> set (requestsOf (effects (run es mount)))"
  with run_requests [of es] have fr: "frameRequest q" by (simp add: list_all_iff)
  then obtain entries where body: "reqBody q = Some entries"
    and names: "map (\<lambda>(name, b, filename). (name, filename)) entries = [(''file'', ''frame.jpg'')]"
    by (cases "reqBody q") (simp_all add: frameRequest_def)
  from names obtain b where "entries = [(''file'', b, ''frame.jpg'')]"
    by (cases entries) auto
  with fr body show "reqMethod q = Some ''POST'' \<and> reqHeaders q = None \<and> reqCredentials q = None \<and>
     (\<exists>b. reqBody q = Some [(''file'', b, ''frame.jpg'')]) \<and>
     (reqUrl q = ''http://localhost:8000/predict/hand/'' \<or>
      reqUrl q = ''http://localhost:8000/predict/body/'')"
    by (simp add: frameRequest_def endpoint_def)
qed

theorem requests_carry_only_the_frame_witness:
  "requestsOf (effects
     (run [ClickCamera, Settle 0 (MediaResult (Resolved (MediaStream [0, 1]))), Fire 0, Fire 1,
           Settle 0 (BlobResult (Some \<lparr>blobType = ''image/jpeg'', blobBytes = [255, 216]\<rparr>))] mount)) =
     [\<lparr>reqUrl = ''http://localhost:8000/predict/hand/'', reqMethod = Some ''POST'',
       reqHeaders = None,
       reqBody = Some [(''file'', \<lparr>blobType = ''image/jpeg'', blobBytes = [255, 216]\<rparr>, ''frame.jpg'')],
       reqCredentials = None\<rparr>] \<and>
   reqHeaders (hd (requestsOf (effects
     (run [ClickCamera, Settle 0 (MediaResult (Resolved (MediaStream [0, 1]))), Fire 0, Fire 1,
           Settle 0 (BlobResult (Some \<lparr>blobType = ''image/jpeg'', blobBytes = [255, 216]\<rparr>))] mount)))) = None"
proof -
  let ?es = "[ClickCamera, Settle 0 (MediaResult (Resolved (MediaStream [0, 1]))), Fire 0, Fire 1,
           Settle 0 (BlobResult (Some \<lparr>blobType = ''image/jpeg'', blobBytes = [255, 216]\<rparr>))]"
  have sent: "requestsOf (effects (run ?es mount)) =
     [\<lparr>reqUrl = ''http://localhost:8000/predict/hand/'', reqMethod = Some ''POST'',
       reqHeaders = None,
       reqBody = Some [(''file'', \<lparr>blobType = ''image/jpeg'', blobBytes = [255, 216]\<rparr>, ''frame.jpg'')],
       reqCredentials = None\<rparr>]"
    unfolding posted_state by simp
  then have "hd (requestsOf (effects (run ?es mount))) \<in> set (requestsOf (effects (run ?es mount)))"
    by simp
  with requests_carry_only_the_frame [of ?es] sent show ?thesis by blast
qed



text \<open>
  What \<open>closeCamera\<close> does with the element the ref points to: the flag \<open>isCameraOn\<close>
  is false afterwards; if the ref holds the video element and a stream is attached to it,
  every track of it is stopped and \<open>srcObject\<close> is null afterwards; if the ref is null
  or no stream is attached, only the flag is set; and a second call changes nothing.
\<close>

lemma closeCamera_on_current_ref:
  "\<not> isCameraOn (closeCamera s) \<and>
   (videoRef s = Some v \<and> srcObject v = Some st \<longrightarrow>
      set (getTracks st) \<subseteq> ended (closeCamera s) \<and>
      videoRef (closeCamera s) = Some (v\<lparr>srcObject := None\<rparr>)) \<and>
   (videoRef s = None \<or> (\<exists>w. videoRef s = Some w \<and> srcObject w = None) \<longrightarrow>
      closeCamera s = s\<lparr>isCameraOn := False\<rparr>) \<and>
   closeCamera (closeCamera s) = closeCamera s"
proof -
  have attached: "set (getTracks st) \<subseteq> ended (closeCamera s) \<and>
      videoRef (closeCamera s) = Some (v\<lparr>srcObject := None\<rparr>)"
    if "videoRef s = Some v \<and> srcObject v = Some st"
    using that by (simp add: closeCamera_def setIsCameraOn_def fold_stopTrack)
  have detached: "closeCamera s = s\<lparr>isCameraOn := False\<rparr>"
    if "videoRef s = None \<or> (\<exists>w. videoRef s = Some w \<and> srcObject w = None)"
    using that by (auto simp: closeCamera_def setIsCameraOn_def)
  have again: "closeCamera (closeCamera s) = closeCamera s"
    by (simp add: closeCamera_def setIsCameraOn_def fold_stopTrack split: option.splits)
  from attached detached again show ?thesis by simp
qed

text \<open>
  C9 does not hold for the call of line 11, the one the source marks "Cleanup on
  unmount". In the session below the camera is opened and the stream with the tracks 0
  and 1 is attached to the video element. Closing the camera with the button stops both
  tracks. Unmounting instead calls \<open>closeCamera\<close> when React has already reset
  \<^verbatim>\<open>videoRef.current\<close> to null: the test of line 35 fails, lines 36-38 are skipped, and no
  track of the stream that was attached is stopped.
\<close>

theorem unmount_leaves_tracks_running:
  "videoRef (run [ClickCamera, Settle 0 (MediaResult (Resolved (MediaStream [0, 1]))), Fire 0] mount) =
     Some \<lparr>srcObject = Some (MediaStream [0, 1])\<rparr> \<and>
   ended (step ClickCamera
     (run [ClickCamera, Settle 0 (MediaResult (Resolved (MediaStream [0, 1]))), Fire 0] mount)) =
     {0, 1} \<and>
   ended (step (Unmount True)
     (run [ClickCamera, Settle 0 (MediaResult (Resolved (MediaStream [0, 1]))), Fire 0] mount)) =
     {}"
  unfolding streaming_state by (auto simp: eval_defs)

text \<open>
  C10. If the video ref, the canvas ref or the 2d context is null, \<open>captureAndSendFrame\<close>
  returns the state unchanged. If the encoded blob is null, the callback returns the state
  unchanged, so the invocation has made no fetch and left \<open>prediction\<close>, \<open>isCameraOn\<close>
  and \<open>mode\<close> as they were.
\<close>

theorem captureAndSendFrame_guards:
  "(videoRef s = None \<or> canvasRef s = None \<or> (\<exists>c. canvasRef s = Some c \<and> \<not> context2d c) \<longrightarrow>
      captureAndSendFrame m s = s) \<and>
   blobCallback m None s = s \<and>
   requestsOf (effects (blobCallback m None (captureAndSendFrame m s))) = requestsOf (effects s) \<and>
   prediction (blobCallback m None (captureAndSendFrame m s)) = prediction s \<and>
   isCameraOn (blobCallback m None (captureAndSendFrame m s)) = isCameraOn s \<and>
   mode (blobCallback m None (captureAndSendFrame m s)) = mode s"
proof -
  have early: "captureAndSendFrame m s = s"
    if "videoRef s = None \<or> canvasRef s = None \<or> (\<exists>c. canvasRef s = Some c \<and> \<not> context2d c)"
    using that by (auto simp: captureAndSendFrame_def split: option.splits)
  have noblob: "blobCallback m None t = t" for t
    by (simp add: blobCallback_def)
  from early show ?thesis by (simp add: noblob)
qed

theorem captureAndSendFrame_guards_witness:
  "captureAndSendFrame Hand (run [Unmount True] mount) = run [Unmount True] mount \<and>
   videoRef (run [Unmount True] mount) = None"
proof -
  have v: "videoRef (run [Unmount True] mount) = None"
    by (simp add: run_def unmount_def mount_def intervalEffect_def Let_def)
  from captureAndSendFrame_guards [of "run [Unmount True] mount" Hand] v
  show ?thesis by simp
qed

end
